theory Spec2Isabelle
  imports Main
begin

section \<open>Field elements\<close>

text \<open>
  \<^verbatim>\<open>fr.Element\<close> (package gurvy/bn256/fr, outside this repository) is a residue modulo
  the order of the BN256 scalar field.  Its arithmetic writes into a destination
  (\<^verbatim>\<open>z.Mul(&x, &y)\<close>); the model uses the values: \<open>+\<close>, \<open>-\<close>, \<open>*\<close> and \<open>^\<close> are the
  operations modulo \<open>fr_modulus\<close>.
\<close>

definition fr_modulus :: int where
  "fr_modulus = 21888242871839275222246405745257275088548364400416034343698204186575808495617"

lemma fr_modulus_gt_1: "1 < fr_modulus"
  by (simp add: fr_modulus_def)

typedef fr = "{0 ..< fr_modulus}"
  morphisms fr_to_int Abs_fr
proof
  show "0 \<in> {0 ..< fr_modulus}"
    using fr_modulus_gt_1 by simp
qed

setup_lifting type_definition_fr

instantiation fr :: comm_ring_1
begin

lift_definition zero_fr :: fr is 0
  using fr_modulus_gt_1 by simp

lift_definition one_fr :: fr is 1
  using fr_modulus_gt_1 by simp

lift_definition plus_fr :: "fr \<Rightarrow> fr \<Rightarrow> fr" is "\<lambda>a b. (a + b) mod fr_modulus"
  using fr_modulus_gt_1 by simp

lift_definition minus_fr :: "fr \<Rightarrow> fr \<Rightarrow> fr" is "\<lambda>a b. (a - b) mod fr_modulus"
  using fr_modulus_gt_1 by simp

lift_definition uminus_fr :: "fr \<Rightarrow> fr" is "\<lambda>a. (- a) mod fr_modulus"
  using fr_modulus_gt_1 by simp

lift_definition times_fr :: "fr \<Rightarrow> fr \<Rightarrow> fr" is "\<lambda>a b. (a * b) mod fr_modulus"
  using fr_modulus_gt_1 by simp

instance
proof
  fix a b c :: fr
  show "a * b * c = a * (b * c)"
    by transfer (simp add: mod_mult_left_eq mod_mult_right_eq mult.assoc)
  show "a * b = b * a"
    by transfer (simp add: mult.commute)
  show "1 * a = a"
    by transfer simp
  show "a + b + c = a + (b + c)"
    by transfer (simp add: mod_add_left_eq mod_add_right_eq add.assoc)
  show "a + b = b + a"
    by transfer (simp add: add.commute)
  show "0 + a = a"
    by transfer simp
  show "- a + a = 0"
    by transfer (simp add: mod_add_left_eq)
  show "a - b = a + - b"
    by transfer (simp add: mod_add_right_eq)
  show "(a + b) * c = a * c + b * c"
    by transfer (simp add: mod_mult_left_eq mod_add_eq distrib_right)
  show "(0::fr) \<noteq> 1"
    by transfer simp
qed

end

text \<open>
  \<^verbatim>\<open>Inverse\<close> returns the multiplicative inverse, and 0 for 0; in a prime field that is
  the power with exponent \<open>fr_modulus - 2\<close>.  \<^verbatim>\<open>z.Div(&x, &y)\<close> multiplies \<open>x\<close> by the
  inverse of \<open>y\<close>.
\<close>

definition Inverse :: "fr \<Rightarrow> fr" where
  "Inverse x = x ^ nat (fr_modulus - 2)"

definition Div :: "fr \<Rightarrow> fr \<Rightarrow> fr" where
  "Div x y = x * Inverse y"

text \<open>The residue of an integer, for reading concrete values.\<close>

lift_definition fr_of :: "int \<Rightarrow> fr" is "\<lambda>a. a mod fr_modulus"
  using fr_modulus_gt_1 by simp

lemma fr_of_add: "fr_of a + fr_of b = fr_of (a + b)"
  by transfer (simp add: mod_add_eq)

lemma fr_of_mult: "fr_of a * fr_of b = fr_of (a * b)"
  by transfer (simp add: mod_mult_eq)

lemma fr_of_diff: "fr_of a - fr_of b = fr_of (a - b)"
  by transfer (simp add: mod_diff_eq)

lemma fr_of_minus: "- fr_of a = fr_of (- a)"
  by transfer (simp add: mod_minus_eq)

lemma fr_of_0: "(0::fr) = fr_of 0"
  by transfer simp

lemma fr_of_1: "(1::fr) = fr_of 1"
  using fr_modulus_gt_1 by transfer simp

lemma fr_of_numeral: "(numeral n :: fr) = fr_of (numeral n)"
proof (induction n)
  case One
  show ?case by (simp add: fr_of_1)
next
  case (Bit0 n)
  have "(numeral (Num.Bit0 n) :: fr) = numeral n + numeral n"
    by (simp add: numeral_Bit0)
  also have "\<dots> = fr_of (numeral n + numeral n)"
    by (simp only: Bit0.IH fr_of_add)
  finally show ?case by (simp add: numeral_Bit0)
next
  case (Bit1 n)
  have "(numeral (Num.Bit1 n) :: fr) = numeral n + numeral n + 1"
    by (simp add: numeral_Bit1)
  also have "\<dots> = fr_of (numeral n + numeral n + 1)"
    by (simp only: Bit1.IH fr_of_add fr_of_1)
  finally show ?case by (simp add: numeral_Bit1)
qed

lemma fr_of_power: "fr_of a ^ n = fr_of (a ^ n)"
  by (induction n) (simp_all add: fr_of_1 fr_of_mult)

lemma fr_of_reduce: "fr_of (q * fr_modulus + x) = fr_of x"
  by transfer simp

lemma fr_of_inject:
  assumes "0 \<le> a" "a < fr_modulus" "0 \<le> b" "b < fr_modulus"
  shows "fr_of a = fr_of b \<longleftrightarrow> a = b"
  using assms by transfer simp

lemmas fr_arith = fr_of_numeral fr_of_0 fr_of_1 fr_of_add fr_of_mult fr_of_diff fr_of_minus
  fr_of_power

lemma Inverse_1: "Inverse 1 = 1"
  by (simp add: Inverse_def)

section \<open>Data\<close>

text \<open>
  A run-time panic of the Go program (an index out of range) ends the call; it is the
  \<open>Inl\<close> branch of every result.
\<close>

datatype panic = IndexOutOfRange

definition and_then :: "panic + 'a \<Rightarrow> ('a \<Rightarrow> panic + 'b) \<Rightarrow> panic + 'b" where
  "and_then m f = (case m of Inl e \<Rightarrow> Inl e | Inr x \<Rightarrow> f x)"

text \<open>
  \<^verbatim>\<open>fft.Domain\<close>: the fields the prover reads.  \<open>Cardinality\<close> is a \<^verbatim>\<open>uint64\<close>; it is
  the length of slices held in memory, so \<open>4 * Cardinality\<close> does not wrap.
\<close>

record Domain =
  Cardinality :: nat
  Generator :: fr
  FinerGenerator :: fr

text \<open>The commitment scheme is an interface; its two methods are parameters.\<close>

record ('bp, 'op) CommitmentScheme =
  BatchOpenSinglePoint :: "fr \<Rightarrow> fr \<Rightarrow> fr list list \<Rightarrow> 'bp"
  Open :: "fr \<Rightarrow> fr list \<Rightarrow> 'op"

text \<open>
  \<^verbatim>\<open>PublicRaw\<close>, as \<^verbatim>\<open>prove.go\<close> reads it.  \<^verbatim>\<open>Shifter\<close> is a \<^verbatim>\<open>[2]fr.Element\<close>:
  \<open>fst\<close> is \<^verbatim>\<open>Shifter[0]\<close> and \<open>snd\<close> is \<^verbatim>\<open>Shifter[1]\<close>.
\<close>

record ('bp, 'op) PublicRaw =
  DomainNum :: Domain
  DomainH :: Domain
  Ql :: "fr list"
  Qr :: "fr list"
  Qm :: "fr list"
  Qo :: "fr list"
  Qk :: "fr list"
  LS1 :: "fr list"
  LS2 :: "fr list"
  LS3 :: "fr list"
  CS1 :: "fr list"
  CS2 :: "fr list"
  CS3 :: "fr list"
  Shifter :: "fr \<times> fr"
  CommitmentScheme :: "('bp, 'op) CommitmentScheme"

text \<open>
  A constraint of \<^verbatim>\<open>cs.SparseR1CS\<close> exposes the variable ids of its three wires
  (\<^verbatim>\<open>c.L.VariableID()\<close>, \<^verbatim>\<open>c.R.VariableID()\<close>, \<^verbatim>\<open>c.O.VariableID()\<close>).
\<close>

datatype Term = Term (VariableID: nat)

record SparseR1C =
  wireL :: Term
  wireR :: Term
  wireO :: Term

record SparseR1CS =
  Constraints :: "SparseR1C list"
  Assertions :: "SparseR1C list"

text \<open>
  \<^verbatim>\<open>Proof\<close>.  The two opening proofs are interface values: \<open>None\<close> is \<^verbatim>\<open>nil\<close>, the zero
  value.
\<close>

record ('bp, 'op) Proof =
  LROHZ :: "fr list"
  ZShift :: fr
  BatchOpenings :: "'bp option"
  OpeningZShift :: "'op option"

text \<open>The protocol constants set by \<^verbatim>\<open>init\<close>.\<close>

definition zeta :: fr where "zeta = 2938092839238274283"
definition vBundle :: fr where "vBundle = 987545678"
definition gamma :: fr where "gamma = 8278263826"
definition alpha :: fr where "alpha = 25678323434"

section \<open>Polynomials and transforms\<close>

text \<open>
  Modelled from the spec: \<^verbatim>\<open>Poly.Eval\<close> (package crypto/polynomial/bn256) is missing from
  the sources; it is the direct evaluation of a coefficient-form polynomial by Horner's
  method.
\<close>

primrec Eval :: "fr list \<Rightarrow> fr \<Rightarrow> fr" where
  "Eval [] x = 0"
| "Eval (c # cs) x = c + x * Eval cs x"

text \<open>
  Modelled from the spec: \<^verbatim>\<open>fft.BitReverse\<close> is missing from the sources; it permutes a
  sequence of length \<open>2 ^ k\<close> so that index \<open>i\<close> holds the entry whose index is \<open>i\<close> with
  its \<open>k\<close> bits reversed.
\<close>

fun log2 :: "nat \<Rightarrow> nat" where
  "log2 n = (if n < 2 then 0 else Suc (log2 (n div 2)))"

primrec reverse_bits :: "nat \<Rightarrow> nat \<Rightarrow> nat" where
  "reverse_bits 0 i = 0"
| "reverse_bits (Suc k) i = 2 ^ k * (i mod 2) + reverse_bits k (i div 2)"

definition BitReverse :: "fr list \<Rightarrow> fr list" where
  "BitReverse a = map (\<lambda>i. a ! reverse_bits (log2 (length a)) i) [0..<length a]"

text \<open>
  Modelled from the spec: \<^verbatim>\<open>Domain.FFT\<close> is missing from the sources.
  \<^verbatim>\<open>FFT(data, DIF, coset)\<close> evaluates the coefficient-form sequence at the points
  \<open>Generator ^ i * FinerGenerator ^ coset\<close> and leaves the values in bit-reversed order
  (coset 0 is the domain itself; the coset shifts 1, 3, 5, 7 are the odd powers of the
  finer generator).  The transform works in place: the result has the length of the data.
\<close>

definition FFT :: "Domain \<Rightarrow> fr list \<Rightarrow> nat \<Rightarrow> fr list" where
  "FFT domain a coset =
     BitReverse (map (\<lambda>i. Eval a (Generator domain ^ i * FinerGenerator domain ^ coset))
       [0..<length a])"

text \<open>
  Modelled from the spec: \<^verbatim>\<open>Domain.FFTInverse\<close> is missing from the sources; it is the
  inverse of \<open>FFT\<close> up to the same bit-reversal convention.  \<^verbatim>\<open>FFTInverse(data, DIF, coset)\<close>
  takes the values at the points \<open>Generator ^ i * FinerGenerator ^ coset\<close> in natural order
  and leaves the coefficients in bit-reversed order: coefficient \<open>k\<close> is
  \<open>(\<Sum>i. a\<^sub>i * Generator ^ (- i * k)) / (n * FinerGenerator ^ (coset * k))\<close>.
\<close>

definition FFTInverse :: "Domain \<Rightarrow> fr list \<Rightarrow> nat \<Rightarrow> fr list" where
  "FFTInverse domain a coset =
     BitReverse (map (\<lambda>k. Inverse (of_nat (length a)) *
                           Inverse (FinerGenerator domain ^ coset) ^ k *
                           Eval a (Inverse (Generator domain) ^ k))
       [0..<length a])"

section \<open>Loops\<close>

text \<open>
  \<open>for_loop n lo body s\<close> is \<^verbatim>\<open>for i := lo; i < lo + n; i++ { body }\<close> from the state
  \<open>s\<close>: \<open>body i\<close> maps the state before iteration \<open>i\<close> to the state after it, or
  panics.
\<close>

fun for_loop :: "nat \<Rightarrow> nat \<Rightarrow> (nat \<Rightarrow> 's \<Rightarrow> panic + 's) \<Rightarrow> 's \<Rightarrow> panic + 's" where
  "for_loop 0 i body s = Inr s"
| "for_loop (Suc n) i body s = and_then (body i s) (for_loop n (Suc i) body)"

text \<open>The builtin \<^verbatim>\<open>copy(dst, src)\<close>: the contents of \<open>dst\<close> afterwards.\<close>

definition copy :: "'a list \<Rightarrow> 'a list \<Rightarrow> 'a list" where
  "copy dst src = take (length dst) src @ drop (length src) dst"

definition Square :: "fr \<Rightarrow> fr" where
  "Square x = x * x"

section \<open>ComputeLRO\<close>

text \<open>
  The loops of lines 68-78 copy one row per constraint: row \<open>i\<close> of \<open>l\<close>, \<open>r\<close>, \<open>o'\<close>
  receives the solution at the constraint's three variable ids.  \<open>copyWires cs i\<close> runs
  the loop over the constraints \<open>cs\<close> that are left, \<open>i\<close> being the row of the first.
\<close>

type_synonym lro = "fr list \<times> fr list \<times> fr list"

fun copyWires :: "SparseR1C list \<Rightarrow> nat \<Rightarrow> fr list \<Rightarrow> lro \<Rightarrow> panic + lro" where
  "copyWires [] i solution lro = Inr lro"
| "copyWires (c # cs) i solution (l, r, o') =
     (if i < length l \<and> VariableID (wireL c) < length solution \<and>
         i < length r \<and> VariableID (wireR c) < length solution \<and>
         i < length o' \<and> VariableID (wireO c) < length solution
      then copyWires cs (Suc i) solution
             (l[i := solution ! VariableID (wireL c)],
              r[i := solution ! VariableID (wireR c)],
              o'[i := solution ! VariableID (wireO c)])
      else Inl IndexOutOfRange)"

text \<open>The loop of lines 84-88: \<open>n\<close> rows from row \<open>j\<close> on receive \<^verbatim>\<open>solution[0]\<close>.\<close>

fun padWires :: "nat \<Rightarrow> nat \<Rightarrow> fr list \<Rightarrow> lro \<Rightarrow> panic + lro" where
  "padWires 0 j solution lro = Inr lro"
| "padWires (Suc n) j solution (l, r, o') =
     (if j < length l \<and> j < length r \<and> j < length o' \<and> 0 < length solution
      then padWires n (Suc j) solution
             (l[j := solution ! 0], r[j := solution ! 0], o'[j := solution ! 0])
      else Inl IndexOutOfRange)"

definition ComputeLRO :: "SparseR1CS \<Rightarrow> ('bp, 'op) PublicRaw \<Rightarrow> fr list \<Rightarrow> panic + lro" where
  "ComputeLRO spr publicData solution =
     (let s = Cardinality (DomainNum publicData);
          l = replicate s 0;
          r = replicate s 0;
          o' = replicate s 0
      in and_then (copyWires (Constraints spr) 0 solution (l, r, o')) (\<lambda>lro.
         let offset = length (Constraints spr)
         in and_then (copyWires (Assertions spr) offset solution lro) (\<lambda>lro.
            let offset = offset + length (Assertions spr)
            in padWires (s - offset) offset solution lro)))"

section \<open>ComputeZ\<close>

text \<open>
  The state of the loop of lines 117-135 is \<open>(u, z)\<close>; \<open>f\<close> and \<open>g\<close> are rewritten in
  every iteration.
\<close>

definition ComputeZ_step ::
  "fr list \<Rightarrow> fr list \<Rightarrow> fr list \<Rightarrow> ('bp, 'op) PublicRaw \<Rightarrow> nat \<Rightarrow>
   (fr \<times> fr \<times> fr) \<times> fr list \<Rightarrow> panic + ((fr \<times> fr \<times> fr) \<times> fr list)" where
  "ComputeZ_step l r o' publicData i s =
     (case s of ((u0, u1, u2), z) \<Rightarrow>
        if i < length l \<and> i < length r \<and> i < length o' \<and>
           i < length (LS1 publicData) \<and> i < length (LS2 publicData) \<and>
           i < length (LS3 publicData) \<and> Suc i < length z
        then
          let f0 = l ! i + u0 + gamma;
              f1 = r ! i + u1 + gamma;
              f2 = o' ! i + u2 + gamma;
              u0' = u0 * Generator (DomainNum publicData);
              u1' = u1 * Generator (DomainNum publicData);
              u2' = u2 * Generator (DomainNum publicData);
              g0 = l ! i + LS1 publicData ! i + gamma;
              g1 = r ! i + LS2 publicData ! i + gamma;
              g2 = o' ! i + LS3 publicData ! i + gamma;
              f0 = f0 * f1 * f2;
              g0 = g0 * g1 * g2
          in Inr ((u0', u1', u2'), z[Suc i := Div (z ! i * f0) g0])
        else Inl IndexOutOfRange)"

definition ComputeZ ::
  "fr list \<Rightarrow> fr list \<Rightarrow> fr list \<Rightarrow> ('bp, 'op) PublicRaw \<Rightarrow> panic + fr list" where
  "ComputeZ l r o' publicData =
     (let z = replicate (Cardinality (DomainNum publicData)) 0;
          nbElmts = Cardinality (DomainNum publicData);
          u = (1, fst (Shifter publicData), Square (snd (Shifter publicData)))
      in if 0 < length z
         then and_then (for_loop (nbElmts - 1) 0 (ComputeZ_step l r o' publicData) (u, z[0 := 1]))
                (\<lambda>s. Inr (snd s))
         else Inl IndexOutOfRange)"

section \<open>evaluateCosets\<close>

text \<open>
  \<^verbatim>\<open>evaluateCosets(poly, res, domain)\<close> writes into \<open>res\<close>; the model returns the contents
  of \<open>res\<close> afterwards.  Lines 307-310 transform \<^verbatim>\<open>evaluations[0]\<close> and
  \<^verbatim>\<open>evaluations[1]\<close> twice each, and no other entry.
\<close>

definition evaluateCosets :: "fr list \<Rightarrow> fr list \<Rightarrow> Domain \<Rightarrow> panic + fr list" where
  "evaluateCosets poly res domain =
     (let e0 = copy (replicate (Cardinality domain) 0) poly;
          e1 = copy (replicate (Cardinality domain) 0) poly;
          e2 = copy (replicate (Cardinality domain) 0) poly;
          e3 = copy (replicate (Cardinality domain) 0) poly;
          e0 = FFT domain e0 1;
          e1 = FFT domain e1 3;
          e0 = FFT domain e0 5;
          e1 = FFT domain e1 7;
          e0 = BitReverse e0;
          e1 = BitReverse e1;
          e2 = BitReverse e2;
          e3 = BitReverse e3
      in for_loop (Cardinality domain) 0
           (\<lambda>i res. if 4 * i + 3 < length res
                     then Inr (res[4 * i := e0 ! i, 4 * i + 1 := e1 ! i,
                                   4 * i + 2 := e2 ! i, 4 * i + 3 := e3 ! i])
                     else Inl IndexOutOfRange)
           res)"

section \<open>evalConstraints\<close>

text \<open>
  \<^verbatim>\<open>evalConstraints\<close> writes into the slice it receives as \<^verbatim>\<open>evalL\<close> and returns that
  slice, so the slices are modelled by reference: a \<open>slice\<close> names a backing array, and
  \<open>memory\<close> gives the contents of every array.  The five selector evaluations are arrays
  of the function's own.
\<close>

type_synonym slice = nat
type_synonym memory = "slice \<Rightarrow> fr list"

definition evalConstraints_step ::
  "fr list \<Rightarrow> fr list \<Rightarrow> fr list \<Rightarrow> fr list \<Rightarrow> fr list \<Rightarrow> slice \<Rightarrow> slice \<Rightarrow> slice \<Rightarrow>
   nat \<Rightarrow> memory \<Rightarrow> panic + memory" where
  "evalConstraints_step evalQl evalQr evalQm evalQo evalQk evalL evalR evalO i mem =
     (if i < length evalQl \<and> i < length evalQr \<and> i < length evalQm \<and> i < length evalQo \<and>
         i < length evalQk \<and> i < length (mem evalL) \<and> i < length (mem evalR) \<and>
         i < length (mem evalO)
      then
        let acc = evalQl ! i * mem evalL ! i;
            buf = evalQr ! i * mem evalR ! i;
            acc = acc + buf;
            buf = evalQm ! i * mem evalL ! i * mem evalR ! i;
            acc = acc + buf;
            buf = evalQo ! i * mem evalO ! i;
            acc = acc + buf
        in Inr (mem(evalL := (mem evalL)[i := acc + evalQk ! i]))
      else Inl IndexOutOfRange)"

definition evalConstraints ::
  "('bp, 'op) PublicRaw \<Rightarrow> slice \<Rightarrow> slice \<Rightarrow> slice \<Rightarrow> memory \<Rightarrow> panic + (slice \<times> memory)" where
  "evalConstraints publicData evalL evalR evalO mem =
     (let n4 = 4 * Cardinality (DomainNum publicData) in
      and_then (evaluateCosets (Ql publicData) (replicate n4 0) (DomainNum publicData)) (\<lambda>evalQl.
      and_then (evaluateCosets (Qr publicData) (replicate n4 0) (DomainNum publicData)) (\<lambda>evalQr.
      and_then (evaluateCosets (Qm publicData) (replicate n4 0) (DomainNum publicData)) (\<lambda>evalQm.
      and_then (evaluateCosets (Qo publicData) (replicate n4 0) (DomainNum publicData)) (\<lambda>evalQo.
      and_then (evaluateCosets (Qk publicData) (replicate n4 0) (DomainNum publicData)) (\<lambda>evalQk.
      and_then (for_loop n4 0
                  (evalConstraints_step evalQl evalQr evalQm evalQo evalQk evalL evalR evalO) mem)
        (\<lambda>mem. Inr (evalL, mem))))))))"

section \<open>evalIDCosets\<close>

text \<open>
  \<open>id\<close>, \<open>uid\<close> and \<open>uuid\<close> are arrays of length \<open>4 * c\<close> made by the function; but for
  \<^verbatim>\<open>id[0]\<close> to \<^verbatim>\<open>id[3]\<close> when \<open>c = 0\<close>, every index below is less than \<open>4 * c\<close>.
\<close>

definition evalIDCosets_fill :: "fr \<Rightarrow> nat \<Rightarrow> fr list \<Rightarrow> panic + fr list" where
  "evalIDCosets_fill gen i id' =
     (let id' = id'[4 * i := id' ! (4 * (i - 1)) * gen];
          id' = id'[4 * i + 1 := id' ! (4 * i)];
          id' = id'[4 * i + 2 := id' ! (4 * i)];
          id' = id'[4 * i + 3 := id' ! (4 * i)]
      in Inr id')"

definition evalIDCosets_shift ::
  "nat \<Rightarrow> fr \<times> fr \<times> fr \<times> fr \<Rightarrow> fr \<times> fr \<Rightarrow> nat \<Rightarrow> fr list \<times> fr list \<times> fr list \<Rightarrow>
   panic + (fr list \<times> fr list \<times> fr list)" where
  "evalIDCosets_shift c u shifter i s =
     (case (u, s) of ((u0, u1, u2, u3), (id', uid, uuid)) \<Rightarrow>
        let id' = id'[4 * i := id' ! (4 * i) * u0];
            id' = id'[4 * i + 1 := id' ! (4 * i + 1) * u1];
            id' = id'[4 * i + 2 := id' ! (4 * i + 2) * u2];
            id' = id'[4 * i + 3 := id' ! (4 * i + 3) * u3];
            uid = uid[4 * i := id' ! (4 * i) * fst shifter];
            uid = uid[4 * i + 1 := id' ! (4 * i + 1) * fst shifter];
            uid = uid[4 * i + 2 := id' ! (4 * i + 2) * fst shifter];
            uid = uid[4 * i + 3 := id' ! (4 * i + 3) * fst shifter];
            uuid = uuid[i := id' ! i * snd shifter];
            uuid = uuid[i + c := id' ! (i + c) * snd shifter];
            uuid = uuid[i + 2 * c := id' ! (i + 2 * c) * snd shifter];
            uuid = uuid[i + 3 * c := id' ! (i + 3 * c) * snd shifter]
        in Inr (id', uid, uuid))"

definition evalIDCosets ::
  "('bp, 'op) PublicRaw \<Rightarrow> panic + (fr list \<times> fr list \<times> fr list)" where
  "evalIDCosets publicData =
     (let id' = replicate (4 * Cardinality (DomainNum publicData)) 0;
          c = Cardinality (DomainNum publicData)
      in if 3 < length id'
         then
           let id' = id'[0 := 1, 1 := 1, 2 := 1, 3 := 1] in
           and_then (for_loop (c - 1) 1 (evalIDCosets_fill (Generator (DomainNum publicData))) id')
             (\<lambda>id'.
               let uu = Square (FinerGenerator (DomainNum publicData));
                   u0 = FinerGenerator (DomainNum publicData);
                   u1 = u0 * uu;
                   u2 = u1 * uu;
                   u3 = u2 * uu;
                   uid = replicate (4 * Cardinality (DomainNum publicData)) 0;
                   uuid = replicate (4 * Cardinality (DomainNum publicData)) 0
               in for_loop c 0 (evalIDCosets_shift c (u0, u1, u2, u3) (Shifter publicData))
                    (id', uid, uuid))
         else Inl IndexOutOfRange)"

section \<open>evalConstraintOrdering\<close>

definition evalConstraintOrdering_step ::
  "fr list \<Rightarrow> fr list \<Rightarrow> fr list \<Rightarrow> fr list \<Rightarrow> fr list \<Rightarrow> fr list \<Rightarrow> fr list \<Rightarrow> fr list \<Rightarrow>
   fr list \<Rightarrow> fr list \<Rightarrow> fr list \<Rightarrow> nat \<Rightarrow> fr list \<Rightarrow> panic + fr list" where
  "evalConstraintOrdering_step evalZ evalZu evalS1 evalS2 evalS3 evalID evaluID evaluuID
       evalL evalR evalO i res =
     (if i < length evalL \<and> i < length evalR \<and> i < length evalO
      then
        let f0 = evalL ! i + evalID ! i + gamma;
            f1 = evalR ! i + evaluID ! i + gamma;
            f2 = evalO ! i + evaluuID ! i + gamma;
            g0 = evalL ! i + evalS1 ! i + gamma;
            g1 = evalR ! i + evalS2 ! i + gamma;
            g2 = evalO ! i + evalS3 ! i + gamma;
            f0 = f0 * f1 * f2 * evalL ! i * evalZ ! i;
            g0 = g0 * g1 * g2 * evalL ! i * evalZu ! i
        in Inr (res[i := g0 - f0])
      else Inl IndexOutOfRange)"

definition evalConstraintOrdering ::
  "('bp, 'op) PublicRaw \<Rightarrow> fr list \<Rightarrow> fr list \<Rightarrow> fr list \<Rightarrow> fr list \<Rightarrow> fr list \<Rightarrow>
   panic + fr list" where
  "evalConstraintOrdering publicData z zu evalL evalR evalO =
     (let n4 = 4 * Cardinality (DomainNum publicData) in
      and_then (evaluateCosets z (replicate n4 0) (DomainNum publicData)) (\<lambda>evalZ.
      and_then (evaluateCosets zu (replicate n4 0) (DomainNum publicData)) (\<lambda>evalZu.
      and_then (evaluateCosets (CS1 publicData) (replicate n4 0) (DomainNum publicData)) (\<lambda>evalS1.
      and_then (evaluateCosets (CS2 publicData) (replicate n4 0) (DomainNum publicData)) (\<lambda>evalS2.
      and_then (evaluateCosets (CS3 publicData) (replicate n4 0) (DomainNum publicData)) (\<lambda>evalS3.
      and_then (evalIDCosets publicData) (\<lambda>ids.
        case ids of (evalID, evaluID, evaluuID) \<Rightarrow>
          for_loop n4 0
            (evalConstraintOrdering_step evalZ evalZu evalS1 evalS2 evalS3 evalID evaluID evaluuID
               evalL evalR evalO)
            (replicate n4 0))))))))"

section \<open>shiftZ\<close>

definition shiftZ :: "fr list \<Rightarrow> panic + fr list" where
  "shiftZ z =
     (let res = copy (replicate (length z) 0) z in
      if 0 < length res
      then
        let buf = res ! 0 in
        and_then (for_loop (length res - 1) 0
                    (\<lambda>i res. if Suc i < length res then Inr (res[i := res ! (i + 1)])
                              else Inl IndexOutOfRange)
                    res)
          (\<lambda>res. Inr (res[length res - 1 := buf]))
      else Inl IndexOutOfRange)"

section \<open>computeH\<close>

text \<open>
  Lines 349-385: the evaluations of \<open>h\<close> on the extended points, before the inverse
  transform.  In \<^verbatim>\<open>u[1].Mul(&u[0], &uu).Exp(u[1], &bExpo)\<close> the argument \<^verbatim>\<open>u[1]\<close> is read
  when \<^verbatim>\<open>Exp\<close> is called, after \<^verbatim>\<open>Mul\<close> has written it.
\<close>

definition computeH_evals ::
  "('bp, 'op) PublicRaw \<Rightarrow> fr list \<Rightarrow> fr list \<Rightarrow> panic + fr list" where
  "computeH_evals publicData constraintsInd constraintOrdering =
     (let n = Cardinality (DomainNum publicData);
          h = replicate (4 * n) 0
      in and_then
           (for_loop (4 * n) 0
              (\<lambda>i h. if i < length constraintOrdering \<and> i < length constraintsInd
                      then let buf = alpha * constraintOrdering ! i
                           in Inr (h[i := constraintsInd ! i + buf])
                      else Inl IndexOutOfRange)
              h)
           (\<lambda>h.
             let uu = Square (FinerGenerator (DomainNum publicData));
                 u0 = Inverse (FinerGenerator (DomainNum publicData) ^ n);
                 u1 = Inverse ((u0 * uu) ^ n);
                 u2 = Inverse ((u1 * uu) ^ n);
                 u3 = Inverse ((u2 * uu) ^ n)
             in for_loop n 0
                  (\<lambda>i h. Inr (h[4 * i := h ! (4 * i) * u0, 4 * i + 1 := h ! (4 * i + 1) * u1,
                                 4 * i + 2 := h ! (4 * i + 2) * u2,
                                 4 * i + 3 := h ! (4 * i + 3) * u3]))
                  h))"

definition computeH ::
  "('bp, 'op) PublicRaw \<Rightarrow> fr list \<Rightarrow> fr list \<Rightarrow> panic + fr list" where
  "computeH publicData constraintsInd constraintOrdering =
     and_then (computeH_evals publicData constraintsInd constraintOrdering) (\<lambda>h.
       let h = FFTInverse (DomainH publicData) h 1;
           h = BitReverse h
       in Inr h)"

section \<open>Prove\<close>

text \<open>
  \<^verbatim>\<open>spr.Solve\<close> (package cs) is missing from the sources: it is the parameter \<open>Solve\<close>,
  which returns the solution and an error (\<open>None\<close> is \<^verbatim>\<open>nil\<close>).  The witness is a
  sequence of field elements.

  \<open>Prove_body\<close> is \<^verbatim>\<open>Prove\<close> up to line 472: it yields the slice \<^verbatim>\<open>constraintsInd\<close> as it
  is handed to \<^verbatim>\<open>computeH\<close>, and the value of the variable \<^verbatim>\<open>proof\<close>.  The three buffers
  \<^verbatim>\<open>evalL\<close>, \<^verbatim>\<open>evalR\<close>, \<^verbatim>\<open>evalO\<close> made at lines 406-408 are the arrays 0, 1 and 2 of a
  memory, since \<^verbatim>\<open>evalConstraints\<close> writes into the first of them.
\<close>

type_synonym error = "string option"

record ('bp, 'op) Prove_locals =
  handed_to_computeH :: "fr list"
  populated :: "('bp, 'op) Proof"

definition Prove_body ::
  "(SparseR1CS \<Rightarrow> fr list \<Rightarrow> fr list \<times> error) \<Rightarrow> SparseR1CS \<Rightarrow> ('bp, 'op) PublicRaw \<Rightarrow>
   fr list \<Rightarrow> panic + ('bp, 'op) Prove_locals" where
  "Prove_body Solve spr publicData witness =
     (case Solve spr witness of (solution, _) \<Rightarrow>
      and_then (ComputeLRO spr publicData solution) (\<lambda>lro. case lro of (l, r, o') \<Rightarrow>
      let n4 = 4 * Cardinality (DomainNum publicData) in
      and_then (evaluateCosets (Ql publicData) (replicate n4 0) (DomainNum publicData)) (\<lambda>evalL.
      and_then (evaluateCosets (Qr publicData) (replicate n4 0) (DomainNum publicData)) (\<lambda>evalR.
      and_then (evaluateCosets (Qm publicData) (replicate n4 0) (DomainNum publicData)) (\<lambda>evalO.
      let mem = (\<lambda>_. [])(0 := evalL, 1 := evalR, 2 := evalO) in
      and_then (evalConstraints publicData 0 1 2 mem) (\<lambda>ret. case ret of (constraintsInd, mem) \<Rightarrow>
      and_then (ComputeZ l r o' publicData) (\<lambda>z.
      and_then (shiftZ z) (\<lambda>zu.
      let z = FFTInverse (DomainNum publicData) z 0;
          zu = FFTInverse (DomainNum publicData) zu 0;
          z = BitReverse z;
          zu = BitReverse zu
      in
      and_then (evalConstraintOrdering publicData z zu (mem 0) (mem 1) (mem 2))
        (\<lambda>constraintsOrdering.
      and_then (computeH publicData (mem constraintsInd) constraintsOrdering) (\<lambda>h.
      let l = FFTInverse (DomainNum publicData) l 0;
          r = FFTInverse (DomainNum publicData) r 0;
          o' = FFTInverse (DomainNum publicData) o' 0;
          l = BitReverse l;
          r = BitReverse r;
          o' = BitReverse o';
          zzeta = zeta * Generator (DomainNum publicData)
      in Inr \<lparr>handed_to_computeH = mem constraintsInd,
               populated =
                 \<lparr>LROHZ = [Eval l zeta, Eval r zeta, Eval o' zeta, Eval h zeta, Eval z zeta],
                  ZShift = Eval z zzeta,
                  BatchOpenings =
                    Some (BatchOpenSinglePoint (CommitmentScheme publicData) zeta vBundle
                            [l, r, o', h, z]),
                  OpeningZShift = Some (Open (CommitmentScheme publicData) zzeta z)\<rparr>\<rparr>))))))))))"

text \<open>Line 474 returns \<^verbatim>\<open>&Proof{}\<close>, the zero value.\<close>

definition zero_Proof :: "('bp, 'op) Proof" where
  "zero_Proof = \<lparr>LROHZ = [0, 0, 0, 0, 0], ZShift = 0, BatchOpenings = None, OpeningZShift = None\<rparr>"

definition Prove ::
  "(SparseR1CS \<Rightarrow> fr list \<Rightarrow> fr list \<times> error) \<Rightarrow> SparseR1CS \<Rightarrow> ('bp, 'op) PublicRaw \<Rightarrow>
   fr list \<Rightarrow> panic + ('bp, 'op) Proof" where
  "Prove Solve spr publicData witness =
     and_then (Prove_body Solve spr publicData witness) (\<lambda>_. Inr zero_Proof)"

text \<open>The claimed values of L, R and O in the variable \<^verbatim>\<open>proof\<close>.\<close>

definition wire_evaluations :: "('bp, 'op) Prove_locals \<Rightarrow> fr list" where
  "wire_evaluations st = take 3 (LROHZ (populated st))"

section \<open>Closed forms\<close>

text \<open>The solution values at one wire of a list of constraints.\<close>

definition wiresOf :: "(SparseR1C \<Rightarrow> Term) \<Rightarrow> fr list \<Rightarrow> SparseR1C list \<Rightarrow> fr list" where
  "wiresOf w solution cs = map (\<lambda>c. solution ! VariableID (w c)) cs"

text \<open>Every variable id of the constraints is an index of the solution.\<close>

definition idsInRange :: "fr list \<Rightarrow> SparseR1C list \<Rightarrow> bool" where
  "idsInRange solution cs =
     list_all (\<lambda>c. VariableID (wireL c) < length solution \<and>
                   VariableID (wireR c) < length solution \<and>
                   VariableID (wireO c) < length solution) cs"

text \<open>
  What \<open>evaluateCosets\<close> writes into a buffer of length \<open>4 * Cardinality\<close>, entry by
  entry, and the contents of a fresh buffer after the call.
\<close>

definition cosetValues :: "fr list \<Rightarrow> Domain \<Rightarrow> fr list" where
  "cosetValues poly domain =
     (let p = copy (replicate (Cardinality domain) 0) poly;
          e = [BitReverse (FFT domain (FFT domain p 1) 5),
               BitReverse (FFT domain (FFT domain p 3) 7),
               BitReverse p,
               BitReverse p]
      in map (\<lambda>k. e ! (k mod 4) ! (k div 4)) [0..<4 * Cardinality domain])"

definition coset_evals :: "fr list \<Rightarrow> Domain \<Rightarrow> fr list" where
  "coset_evals poly domain =
     projr (evaluateCosets poly (replicate (4 * Cardinality domain) 0) domain)"

section \<open>Example inputs\<close>

text \<open>
  Primitive roots of unity of the field, of orders 4, 8, 16 and 32 (powers of the
  generator of its subgroup of order \<open>2 ^ 28\<close>); 5 is not a square in the field.
\<close>

definition omega4 :: fr where
  "omega4 = 21888242871839275217838484774961031246007050428528088939761107053157389710902"

definition omega8 :: fr where
  "omega8 = 19540430494807482326159819597004422086093766032135589407132600596362845576832"

definition omega16 :: fr where
  "omega16 = 14940766826517323942636479241147756311199852622225275649687664389641784935947"

definition omega32 :: fr where
  "omega32 = 4419234939496763621076330863786513495701855246241724391626358375488475697872"

text \<open>A commitment scheme whose opening proofs are the evaluations themselves.\<close>

definition toy_scheme :: "(fr list, fr) CommitmentScheme" where
  "toy_scheme =
     \<lparr>BatchOpenSinglePoint = (\<lambda>point v polys. map (\<lambda>p. Eval p point) polys),
      Open = (\<lambda>point p. Eval p point)\<rparr>"

text \<open>
  One multiplication gate \<open>x\<^sub>1 * x\<^sub>2 = x\<^sub>3\<close> on a domain of cardinality 1, with the
  identity permutation: the selectors and the permutation polynomials are constants.
\<close>

definition circuit1 :: SparseR1CS where
  "circuit1 = \<lparr>Constraints = [\<lparr>wireL = Term 1, wireR = Term 2, wireO = Term 3\<rparr>],
               Assertions = []\<rparr>"

definition public1 :: "(fr list, fr) PublicRaw" where
  "public1 =
     \<lparr>DomainNum = \<lparr>Cardinality = 1, Generator = 1, FinerGenerator = omega8\<rparr>,
      DomainH = \<lparr>Cardinality = 4, Generator = omega4, FinerGenerator = omega8\<rparr>,
      Ql = [0], Qr = [0], Qm = [1], Qo = [- 1], Qk = [0],
      LS1 = [1], LS2 = [5], LS3 = [25],
      CS1 = [1], CS2 = [5], CS3 = [25],
      Shifter = (5, 25),
      CommitmentScheme = toy_scheme\<rparr>"

text \<open>A solver that succeeds with \<open>3 * 4 = 12\<close>, and one that fails.\<close>

definition solve_ok :: "SparseR1CS \<Rightarrow> fr list \<Rightarrow> fr list \<times> error" where
  "solve_ok spr witness = ([0, 3, 4, 12], None)"

definition solve_failed :: "SparseR1CS \<Rightarrow> fr list \<Rightarrow> fr list \<times> error" where
  "solve_failed spr witness = ([0, 3, 4, 13], Some ''constraint is not satisfied'')"

text \<open>
  A domain of cardinality 2 with the identity permutation (\<open>LS1\<close>, \<open>LS2\<close>, \<open>LS3\<close> are the
  values of \<open>X\<close>, \<open>5 * X\<close>, \<open>25 * X\<close> on the domain; \<open>CS1\<close>, \<open>CS2\<close>, \<open>CS3\<close> their
  coefficients), and multiplication gates on both rows.
\<close>

definition domain2 :: Domain where
  "domain2 = \<lparr>Cardinality = 2, Generator = - 1, FinerGenerator = omega16\<rparr>"

definition public2 :: "(fr list, fr) PublicRaw" where
  "public2 =
     \<lparr>DomainNum = domain2,
      DomainH = \<lparr>Cardinality = 8, Generator = omega8, FinerGenerator = omega16\<rparr>,
      Ql = [0, 0], Qr = [0, 0], Qm = [1, 0], Qo = [- 1, 0], Qk = [0, 0],
      LS1 = [1, - 1], LS2 = [5, - 5], LS3 = [25, - 25],
      CS1 = [0, 1], CS2 = [0, 5], CS3 = [0, 25],
      Shifter = (5, 25),
      CommitmentScheme = toy_scheme\<rparr>"

text \<open>
  A constraint and an assertion on a domain of cardinality 4 (of \<open>public4\<close> only the
  domain matters below).
\<close>

definition circuit4 :: SparseR1CS where
  "circuit4 = \<lparr>Constraints = [\<lparr>wireL = Term 1, wireR = Term 2, wireO = Term 3\<rparr>],
               Assertions = [\<lparr>wireL = Term 3, wireR = Term 0, wireO = Term 0\<rparr>]\<rparr>"

definition public4 :: "(fr list, fr) PublicRaw" where
  "public4 = public2\<lparr>DomainNum := \<lparr>Cardinality = 4, Generator = omega4, FinerGenerator = omega32\<rparr>\<rparr>"

section \<open>Properties of the loops\<close>

lemma and_then_Inr [simp]: "and_then (Inr x) f = f x"
  by (simp add: and_then_def)

lemma and_then_Inl [simp]: "and_then (Inl e) f = Inl e"
  by (simp add: and_then_def)

lemma for_loop_rule:
  assumes "I lo s"
    and "\<And>i s. lo \<le> i \<Longrightarrow> i < lo + n \<Longrightarrow> I i s \<Longrightarrow> \<exists>s'. body i s = Inr s' \<and> I (Suc i) s'"
  shows "\<exists>s'. for_loop n lo body s = Inr s' \<and> I (lo + n) s'"
  using assms
proof (induction n arbitrary: lo s)
  case 0
  then show ?case by simp
next
  case (Suc n)
  from Suc.prems(2) [of lo s] Suc.prems(1)
  obtain s1 where s1: "body lo s = Inr s1" "I (Suc lo) s1"
    by auto
  have "\<exists>s'. for_loop n (Suc lo) body s1 = Inr s' \<and> I (Suc lo + n) s'"
  proof (rule Suc.IH [OF s1(2)])
    fix i s
    assume "Suc lo \<le> i" "i < Suc lo + n" "I i s"
    then show "\<exists>s'. body i s = Inr s' \<and> I (Suc i) s'"
      using Suc.prems(2) [of i s] by simp
  qed
  with s1(1) show ?case by simp
qed

lemma quad_cases:
  assumes "k < 4 * Suc i" and "\<not> k < 4 * i"
  shows "k = 4 * i \<or> k = 4 * i + 1 \<or> k = 4 * i + 2 \<or> k = 4 * i + 3"
  using assms by arith

lemma quad_div [simp]:
  "Suc (4 * i) div 4 = i" "Suc (Suc (4 * i)) div 4 = i" "Suc (Suc (Suc (4 * i))) div 4 = i"
  by arith+

lemma quad_mod [simp]:
  "Suc (4 * i) mod 4 = 1" "Suc (Suc (4 * i)) mod 4 = 2" "Suc (Suc (Suc (4 * i))) mod 4 = 3"
  by arith+

lemma interleave_loop:
  assumes "4 * n \<le> length res"
  shows "\<exists>res'. for_loop n 0
           (\<lambda>i res. if 4 * i + 3 < length res
                     then Inr (res[4 * i := e0 ! i, 4 * i + 1 := e1 ! i,
                                   4 * i + 2 := e2 ! i, 4 * i + 3 := e3 ! i])
                     else Inl IndexOutOfRange) res = Inr res' \<and>
           length res' = length res \<and>
           (\<forall>k<4 * n. res' ! k = [e0, e1, e2, e3] ! (k mod 4) ! (k div 4)) \<and>
           (\<forall>k\<ge>4 * n. res' ! k = res ! k)"
proof -
  let ?I = "\<lambda>i res'. length res' = length res \<and>
           (\<forall>k<4 * i. res' ! k = [e0, e1, e2, e3] ! (k mod 4) ! (k div 4)) \<and>
           (\<forall>k\<ge>4 * i. res' ! k = res ! k)"
  have "\<exists>s'. for_loop n 0 (\<lambda>i res. if 4 * i + 3 < length res
                     then Inr (res[4 * i := e0 ! i, 4 * i + 1 := e1 ! i,
                                   4 * i + 2 := e2 ! i, 4 * i + 3 := e3 ! i])
                     else Inl IndexOutOfRange) res = Inr s' \<and> ?I (0 + n) s'"
  proof (rule for_loop_rule [where I = ?I])
    show "?I 0 res" by simp
  next
    fix i s
    assume i: "0 \<le> i" "i < 0 + n" and inv: "?I i s"
    let ?s' = "s[4 * i := e0 ! i, 4 * i + 1 := e1 ! i, 4 * i + 2 := e2 ! i, 4 * i + 3 := e3 ! i]"
    from i assms inv have len: "4 * i + 3 < length s" by simp
    have "?I (Suc i) ?s'"
    proof (intro conjI allI impI)
      show "length ?s' = length res" using inv by simp
    next
      fix k assume k: "k < 4 * Suc i"
      show "?s' ! k = [e0, e1, e2, e3] ! (k mod 4) ! (k div 4)"
      proof (cases "k < 4 * i")
        case True
        then show ?thesis using inv by simp
      next
        case False
        from quad_cases [OF k False] len show ?thesis
          by (elim disjE) simp_all
      qed
    next
      fix k assume "4 * Suc i \<le> k"
      then show "?s' ! k = res ! k" using inv by simp
    qed
    with len show "\<exists>s'. (if 4 * i + 3 < length s then Inr ?s' else Inl IndexOutOfRange) = Inr s' \<and> ?I (Suc i) s'"
      by simp
  qed
  then show ?thesis by simp
qed

lemma evaluateCosets_closed:
  assumes "4 * Cardinality domain \<le> length res"
  shows "evaluateCosets poly res domain = Inr (cosetValues poly domain @ drop (4 * Cardinality domain) res)"
proof -
  let ?p = "copy (replicate (Cardinality domain) 0) poly"
  let ?e0 = "BitReverse (FFT domain (FFT domain ?p 1) 5)"
  let ?e1 = "BitReverse (FFT domain (FFT domain ?p 3) 7)"
  let ?e2 = "BitReverse ?p"
  let ?n = "Cardinality domain"
  from interleave_loop [OF assms, of ?e0 ?e1 ?e2 ?e2]
  obtain res' where res': "for_loop ?n 0
           (\<lambda>i res. if 4 * i + 3 < length res
                     then Inr (res[4 * i := ?e0 ! i, 4 * i + 1 := ?e1 ! i,
                                   4 * i + 2 := ?e2 ! i, 4 * i + 3 := ?e2 ! i])
                     else Inl IndexOutOfRange) res = Inr res'"
    and len: "length res' = length res"
    and lo: "\<forall>k<4 * ?n. res' ! k = [?e0, ?e1, ?e2, ?e2] ! (k mod 4) ! (k div 4)"
    and hi: "\<forall>k\<ge>4 * ?n. res' ! k = res ! k"
    by blast
  have "res' = cosetValues poly domain @ drop (4 * ?n) res"
  proof (rule nth_equalityI)
    show "length res' = length (cosetValues poly domain @ drop (4 * ?n) res)"
      using len assms by (simp add: cosetValues_def Let_def)
  next
    fix k assume "k < length res'"
    then show "res' ! k = (cosetValues poly domain @ drop (4 * ?n) res) ! k"
      using lo hi assms len by (simp add: nth_append cosetValues_def Let_def)
  qed
  moreover have "evaluateCosets poly res domain = for_loop ?n 0
           (\<lambda>i res. if 4 * i + 3 < length res
                     then Inr (res[4 * i := ?e0 ! i, 4 * i + 1 := ?e1 ! i,
                                   4 * i + 2 := ?e2 ! i, 4 * i + 3 := ?e2 ! i])
                     else Inl IndexOutOfRange) res"
    by (simp only: evaluateCosets_def Let_def)
  ultimately show ?thesis
    using res' by (simp only:)
qed



lemma BitReverse_1 [simp]: "BitReverse [x] = [x]"
  by (simp add: BitReverse_def)

lemma BitReverse_2 [simp]: "BitReverse [x, y] = [x, y]"
  by (simp add: BitReverse_def)

lemma FFT_1 [simp]: "FFT domain [x] coset = [x]"
  by (simp add: FFT_def)

lemma FFT_2:
  "FFT domain [x, y] coset =
     [x + FinerGenerator domain ^ coset * y,
      x + Generator domain * FinerGenerator domain ^ coset * y]"
  by (simp add: FFT_def)

lemma evaluateCosets_fresh:
  "evaluateCosets poly (replicate (4 * Cardinality domain) 0) domain =
     Inr (coset_evals poly domain)"
  by (simp add: coset_evals_def evaluateCosets_closed)

lemma coset_evals_closed: "coset_evals poly domain = cosetValues poly domain"
  by (simp add: coset_evals_def evaluateCosets_closed)

lemma length_coset_evals [simp]: "length (coset_evals poly domain) = 4 * Cardinality domain"
  by (simp add: coset_evals_closed cosetValues_def Let_def)

lemma coset_evals_constant:
  assumes "Cardinality domain = 1"
  shows "coset_evals [q] domain = [q, q, q, q]"
  using assms by (simp add: coset_evals_closed cosetValues_def copy_def Let_def upt_conv_Cons)

subsection \<open>shiftZ\<close>

lemma shiftZ_loop:
  "\<exists>res. for_loop (length z - 1) 0
            (\<lambda>i res. if Suc i < length res then Inr (res[i := res ! (i + 1)])
                      else Inl IndexOutOfRange) z = Inr res \<and>
         length res = length z \<and>
         (\<forall>k<length z - 1. res ! k = z ! Suc k) \<and>
         (\<forall>k\<ge>length z - 1. res ! k = z ! k)"
proof -
  let ?I = "\<lambda>i res. length res = length z \<and> (\<forall>k<i. res ! k = z ! Suc k) \<and>
                     (\<forall>k\<ge>i. res ! k = z ! k)"
  have "\<exists>res. for_loop (length z - 1) 0
            (\<lambda>i res. if Suc i < length res then Inr (res[i := res ! (i + 1)])
                      else Inl IndexOutOfRange) z = Inr res \<and> ?I (0 + (length z - 1)) res"
  proof (rule for_loop_rule [where I = ?I])
    show "?I 0 z" by simp
  next
    fix i s
    assume i: "0 \<le> i" "i < 0 + (length z - 1)" and inv: "?I i s"
    from i inv have len: "Suc i < length s" by simp
    have "?I (Suc i) (s[i := s ! (i + 1)])"
    proof (intro conjI allI impI)
      show "length (s[i := s ! (i + 1)]) = length z" using inv by simp
    next
      fix k assume "k < Suc i"
      then consider "k < i" | "k = i" by linarith
      then show "s[i := s ! (i + 1)] ! k = z ! Suc k"
        using inv len by cases simp_all
    next
      fix k assume "Suc i \<le> k"
      then show "s[i := s ! (i + 1)] ! k = z ! k" using inv by simp
    qed
    moreover have "(if Suc i < length s then Inr (s[i := s ! (i + 1)])
                    else Inl IndexOutOfRange) = Inr (s[i := s ! (i + 1)])"
      using len by simp
    ultimately show "\<exists>s'. (if Suc i < length s then Inr (s[i := s ! (i + 1)])
                          else Inl IndexOutOfRange) = Inr s' \<and> ?I (Suc i) s'"
      by blast
  qed
  then show ?thesis by simp
qed

lemma copy_fresh [simp]: "copy (replicate (length z) 0) z = z"
  by (simp add: copy_def)

text \<open>
  C8.  On a non-empty sequence \<open>shiftZ\<close> returns the left cyclic rotation: entry \<open>i\<close> of
  the result is entry \<open>i + 1\<close> of \<open>z\<close> for every \<open>i\<close> below \<open>length z - 1\<close>, and the last
  entry of the result is \<open>z ! 0\<close>.  Read in Lagrange form, the value of the result at
  \<open>gen ^ i\<close> is the value of \<open>z\<close> at \<open>gen ^ (i + 1)\<close>.
\<close>

theorem shiftZ_rotates_left:
  assumes "z \<noteq> []"
  shows "\<exists>res. shiftZ z = Inr res \<and> length res = length z \<and>
           (\<forall>i<length z - 1. res ! i = z ! (i + 1)) \<and>
           res ! (length z - 1) = z ! 0"
proof -
  from shiftZ_loop [of z] obtain res where
    loop: "for_loop (length z - 1) 0
            (\<lambda>i res. if Suc i < length res then Inr (res[i := res ! (i + 1)])
                      else Inl IndexOutOfRange) z = Inr res"
    and len: "length res = length z"
    and lo: "\<forall>k<length z - 1. res ! k = z ! Suc k"
    by blast
  have "shiftZ z = Inr (res[length res - 1 := z ! 0])"
    using assms loop by (simp add: shiftZ_def)
  moreover have "\<forall>i<length z - 1. (res[length res - 1 := z ! 0]) ! i = z ! (i + 1)"
    using lo len by simp
  moreover have "(res[length res - 1 := z ! 0]) ! (length z - 1) = z ! 0"
    using len assms by simp
  ultimately show ?thesis
    using len by auto
qed

theorem shiftZ_rotates_left_witness:
  "[1, 2, 3] \<noteq> ([] :: fr list) \<and>
   (\<exists>res. shiftZ [1, 2, 3] = Inr res \<and> length res = length [1, 2, 3 :: fr] \<and>
           (\<forall>i<length [1, 2, 3 :: fr] - 1. res ! i = [1, 2, 3] ! (i + 1)) \<and>
           res ! (length [1, 2, 3 :: fr] - 1) = [1, 2, 3] ! 0)"
  using shiftZ_rotates_left [of "[1, 2, 3]"] by simp

subsection \<open>evalConstraints\<close>

lemma evalConstraints_loop:
  assumes "n \<le> length (mem evalL)" "n \<le> length (mem evalR)" "n \<le> length (mem evalO)"
    and "n \<le> length evalQl" "n \<le> length evalQr" "n \<le> length evalQm"
    and "n \<le> length evalQo" "n \<le> length evalQk"
  shows "\<exists>mem'. for_loop n 0
            (evalConstraints_step evalQl evalQr evalQm evalQo evalQk evalL evalR evalO) mem =
            Inr mem' \<and>
          (\<forall>s. s \<noteq> evalL \<longrightarrow> mem' s = mem s) \<and>
          length (mem' evalL) = length (mem evalL) \<and>
          (\<forall>k<n. mem' evalL ! k =
             evalQl ! k * mem evalL ! k + evalQr ! k * mem evalR ! k +
             evalQm ! k * mem evalL ! k * mem evalR ! k + evalQo ! k * mem evalO ! k +
             evalQk ! k) \<and>
          (\<forall>k\<ge>n. mem' evalL ! k = mem evalL ! k)"
proof -
  let ?F = "\<lambda>k. evalQl ! k * mem evalL ! k + evalQr ! k * mem evalR ! k +
             evalQm ! k * mem evalL ! k * mem evalR ! k + evalQo ! k * mem evalO ! k +
             evalQk ! k"
  let ?I = "\<lambda>i m. (\<forall>s. s \<noteq> evalL \<longrightarrow> m s = mem s) \<and>
          length (m evalL) = length (mem evalL) \<and>
          (\<forall>k<i. m evalL ! k = ?F k) \<and> (\<forall>k\<ge>i. m evalL ! k = mem evalL ! k)"
  have "\<exists>mem'. for_loop n 0
            (evalConstraints_step evalQl evalQr evalQm evalQo evalQk evalL evalR evalO) mem =
            Inr mem' \<and> ?I (0 + n) mem'"
  proof (rule for_loop_rule [where I = ?I])
    show "?I 0 mem" by simp
  next
    fix i m
    assume i: "0 \<le> i" "i < 0 + n" and inv: "?I i m"
    have L: "m evalL ! i = mem evalL ! i" "length (m evalL) = length (mem evalL)"
      using inv by simp_all
    have R: "m evalR ! i = mem evalR ! i" "length (m evalR) = length (mem evalR)"
      using inv by (cases "evalR = evalL"; simp)+
    have O: "m evalO ! i = mem evalO ! i" "length (m evalO) = length (mem evalO)"
      using inv by (cases "evalO = evalL"; simp)+
    have step: "evalConstraints_step evalQl evalQr evalQm evalQo evalQk evalL evalR evalO i m =
            Inr (m(evalL := (m evalL)[i := ?F i]))"
      using i assms by (simp add: evalConstraints_step_def Let_def L R O)
    have "?I (Suc i) (m(evalL := (m evalL)[i := ?F i]))"
      using inv i assms by (auto simp: nth_list_update less_Suc_eq)
    with step show "\<exists>s'. evalConstraints_step evalQl evalQr evalQm evalQo evalQk evalL evalR evalO i m =
            Inr s' \<and> ?I (Suc i) s'"
      by blast
  qed
  then show ?thesis by simp
qed

text \<open>
  C10.  When the three slices hold at least \<open>4 * Cardinality\<close> entries,
  \<open>evalConstraints\<close> returns the slice it received as \<open>evalL\<close>; afterwards entry \<open>i\<close> of
  that array holds the gate identity, computed from the selector evaluations and from the
  entries \<open>i\<close> the three arrays held before the call; every other array (\<open>evalR\<close> and
  \<open>evalO\<close>, when they are not the array of \<open>evalL\<close>) is as it was.
\<close>

theorem evalConstraints_in_place:
  assumes "4 * Cardinality (DomainNum publicData) \<le> length (mem evalL)"
    and "4 * Cardinality (DomainNum publicData) \<le> length (mem evalR)"
    and "4 * Cardinality (DomainNum publicData) \<le> length (mem evalO)"
  shows "\<exists>mem'. evalConstraints publicData evalL evalR evalO mem = Inr (evalL, mem') \<and>
           (\<forall>i<4 * Cardinality (DomainNum publicData).
              mem' evalL ! i =
                coset_evals (Ql publicData) (DomainNum publicData) ! i * mem evalL ! i +
                coset_evals (Qr publicData) (DomainNum publicData) ! i * mem evalR ! i +
                coset_evals (Qm publicData) (DomainNum publicData) ! i * mem evalL ! i *
                  mem evalR ! i +
                coset_evals (Qo publicData) (DomainNum publicData) ! i * mem evalO ! i +
                coset_evals (Qk publicData) (DomainNum publicData) ! i) \<and>
           (\<forall>s. s \<noteq> evalL \<longrightarrow> mem' s = mem s)"
proof -
  let ?d = "DomainNum publicData"
  from evalConstraints_loop [OF assms, of "coset_evals (Ql publicData) ?d"
      "coset_evals (Qr publicData) ?d" "coset_evals (Qm publicData) ?d"
      "coset_evals (Qo publicData) ?d" "coset_evals (Qk publicData) ?d"]
  obtain mem' where
    loop: "for_loop (4 * Cardinality ?d) 0
            (evalConstraints_step (coset_evals (Ql publicData) ?d) (coset_evals (Qr publicData) ?d)
               (coset_evals (Qm publicData) ?d) (coset_evals (Qo publicData) ?d)
               (coset_evals (Qk publicData) ?d) evalL evalR evalO) mem = Inr mem'"
    and rest: "\<forall>s. s \<noteq> evalL \<longrightarrow> mem' s = mem s"
      "\<forall>k<4 * Cardinality ?d. mem' evalL ! k =
             coset_evals (Ql publicData) ?d ! k * mem evalL ! k +
             coset_evals (Qr publicData) ?d ! k * mem evalR ! k +
             coset_evals (Qm publicData) ?d ! k * mem evalL ! k * mem evalR ! k +
             coset_evals (Qo publicData) ?d ! k * mem evalO ! k +
             coset_evals (Qk publicData) ?d ! k"
    by auto
  have "evalConstraints publicData evalL evalR evalO mem = Inr (evalL, mem')"
    by (simp add: evalConstraints_def Let_def evaluateCosets_fresh loop)
  with rest show ?thesis by blast
qed

theorem evalConstraints_in_place_witness:
  "4 * Cardinality (DomainNum public1) \<le>
     length (((\<lambda>_. [])(0 := [3, 3, 3, 3], 1 := [4, 4, 4, 4], 2 := [12, 12, 12, 12 :: fr]) :: memory) 0) \<and>
   4 * Cardinality (DomainNum public1) \<le>
     length (((\<lambda>_. [])(0 := [3, 3, 3, 3], 1 := [4, 4, 4, 4], 2 := [12, 12, 12, 12 :: fr]) :: memory) 1) \<and>
   4 * Cardinality (DomainNum public1) \<le>
     length (((\<lambda>_. [])(0 := [3, 3, 3, 3], 1 := [4, 4, 4, 4], 2 := [12, 12, 12, 12 :: fr]) :: memory) 2) \<and>
   (\<exists>mem'. evalConstraints public1 0 1 2
              ((\<lambda>_. [])(0 := [3, 3, 3, 3], 1 := [4, 4, 4, 4], 2 := [12, 12, 12, 12])) =
              Inr (0, mem') \<and>
            mem' 0 ! 0 = 0 \<and> mem' 0 ! 1 = 0 \<and> mem' 0 ! 2 = 0 \<and> mem' 0 ! 3 = 0 \<and>
            mem' 1 = [4, 4, 4, 4] \<and> mem' 2 = [12, 12, 12, 12])"
proof -
  let ?mem = "(\<lambda>_. [])(0 := [3, 3, 3, 3], 1 := [4, 4, 4, 4], 2 := [12, 12, 12, 12 :: fr]) :: memory"
  have h: "4 * Cardinality (DomainNum public1) \<le> length (?mem 0)"
    "4 * Cardinality (DomainNum public1) \<le> length (?mem 1)"
    "4 * Cardinality (DomainNum public1) \<le> length (?mem 2)"
    by (simp_all add: public1_def)
  have q: "coset_evals (Ql public1) (DomainNum public1) = [0, 0, 0, 0]"
    "coset_evals (Qr public1) (DomainNum public1) = [0, 0, 0, 0]"
    "coset_evals (Qm public1) (DomainNum public1) = [1, 1, 1, 1]"
    "coset_evals (Qo public1) (DomainNum public1) = [- 1, - 1, - 1, - 1]"
    "coset_evals (Qk public1) (DomainNum public1) = [0, 0, 0, 0]"
    by (simp_all add: public1_def coset_evals_constant)
  from evalConstraints_in_place [OF h] obtain mem' where
    res: "evalConstraints public1 0 1 2 ?mem = Inr (0, mem')"
    and v: "\<forall>i<4 * Cardinality (DomainNum public1).
              mem' 0 ! i =
                coset_evals (Ql public1) (DomainNum public1) ! i * ?mem 0 ! i +
                coset_evals (Qr public1) (DomainNum public1) ! i * ?mem 1 ! i +
                coset_evals (Qm public1) (DomainNum public1) ! i * ?mem 0 ! i * ?mem 1 ! i +
                coset_evals (Qo public1) (DomainNum public1) ! i * ?mem 2 ! i +
                coset_evals (Qk public1) (DomainNum public1) ! i"
    and f: "\<forall>s. s \<noteq> 0 \<longrightarrow> mem' s = ?mem s"
    by blast
  have c: "4 * Cardinality (DomainNum public1) = 4"
    by (simp add: public1_def)
  from v [rule_format, of 0] v [rule_format, of 1] v [rule_format, of 2] v [rule_format, of 3]
  have "mem' 0 ! 0 = 0" "mem' 0 ! 1 = 0" "mem' 0 ! 2 = 0" "mem' 0 ! 3 = 0"
    unfolding q c by simp_all
  moreover from f [rule_format, of 1] f [rule_format, of 2]
  have "mem' 1 = [4, 4, 4, 4]" "mem' 2 = [12, 12, 12, 12]"
    by simp_all
  ultimately show ?thesis
    using h res by blast
qed


subsection \<open>ComputeLRO\<close>

lemma copyWires_rows:
  assumes "idsInRange solution cs"
    and "i + length cs \<le> length l" and "length r = length l" and "length o' = length l"
  shows "copyWires cs i solution (l, r, o') =
           Inr (take i l @ wiresOf wireL solution cs @ drop (i + length cs) l,
                take i r @ wiresOf wireR solution cs @ drop (i + length cs) r,
                take i o' @ wiresOf wireO solution cs @ drop (i + length cs) o')"
  using assms
proof (induction cs arbitrary: i l r o')
  case Nil
  then show ?case by (simp add: wiresOf_def)
next
  case (Cons c cs)
  from Cons.prems have i: "i < length l" "i < length r" "i < length o'"
    and ids: "VariableID (wireL c) < length solution" "VariableID (wireR c) < length solution"
      "VariableID (wireO c) < length solution" "idsInRange solution cs"
    by (simp_all add: idsInRange_def)
  have "copyWires (c # cs) i solution (l, r, o') =
          copyWires cs (Suc i) solution
             (l[i := solution ! VariableID (wireL c)],
              r[i := solution ! VariableID (wireR c)],
              o'[i := solution ! VariableID (wireO c)])"
    using i ids by simp
  also have "\<dots> =
      Inr (take (Suc i) (l[i := solution ! VariableID (wireL c)]) @ wiresOf wireL solution cs @
             drop (Suc i + length cs) (l[i := solution ! VariableID (wireL c)]),
           take (Suc i) (r[i := solution ! VariableID (wireR c)]) @ wiresOf wireR solution cs @
             drop (Suc i + length cs) (r[i := solution ! VariableID (wireR c)]),
           take (Suc i) (o'[i := solution ! VariableID (wireO c)]) @ wiresOf wireO solution cs @
             drop (Suc i + length cs) (o'[i := solution ! VariableID (wireO c)]))"
    using Cons.prems ids by (intro Cons.IH) simp_all
  finally show ?case
    using i by (simp add: take_Suc_conv_app_nth wiresOf_def)
qed

lemma padWires_rows:
  assumes "solution \<noteq> []"
    and "j + n \<le> length l" and "length r = length l" and "length o' = length l"
  shows "padWires n j solution (l, r, o') =
           Inr (take j l @ replicate n (solution ! 0) @ drop (j + n) l,
                take j r @ replicate n (solution ! 0) @ drop (j + n) r,
                take j o' @ replicate n (solution ! 0) @ drop (j + n) o')"
  using assms
proof (induction n arbitrary: j l r o')
  case 0
  then show ?case by simp
next
  case (Suc n)
  from Suc.prems have j: "j < length l" "j < length r" "j < length o'" "0 < length solution"
    by simp_all
  have "padWires (Suc n) j solution (l, r, o') =
          padWires n (Suc j) solution
            (l[j := solution ! 0], r[j := solution ! 0], o'[j := solution ! 0])"
    using j by simp
  also have "\<dots> =
      Inr (take (Suc j) (l[j := solution ! 0]) @ replicate n (solution ! 0) @
             drop (Suc j + n) (l[j := solution ! 0]),
           take (Suc j) (r[j := solution ! 0]) @ replicate n (solution ! 0) @
             drop (Suc j + n) (r[j := solution ! 0]),
           take (Suc j) (o'[j := solution ! 0]) @ replicate n (solution ! 0) @
             drop (Suc j + n) (o'[j := solution ! 0]))"
    using Suc.prems by (intro Suc.IH) simp_all
  finally show ?case
    using j by (simp add: take_Suc_conv_app_nth replicate_app_Cons_same)
qed

lemma ComputeLRO_closed_form:
  assumes ids: "idsInRange solution (Constraints spr)" "idsInRange solution (Assertions spr)"
    and sol: "solution \<noteq> []"
    and fit: "length (Constraints spr) + length (Assertions spr) \<le>
                Cardinality (DomainNum publicData)"
  shows "ComputeLRO spr publicData solution =
           Inr (wiresOf wireL solution (Constraints spr @ Assertions spr) @
                  replicate (Cardinality (DomainNum publicData) -
                    (length (Constraints spr) + length (Assertions spr))) (solution ! 0),
                wiresOf wireR solution (Constraints spr @ Assertions spr) @
                  replicate (Cardinality (DomainNum publicData) -
                    (length (Constraints spr) + length (Assertions spr))) (solution ! 0),
                wiresOf wireO solution (Constraints spr @ Assertions spr) @
                  replicate (Cardinality (DomainNum publicData) -
                    (length (Constraints spr) + length (Assertions spr))) (solution ! 0))"
proof -
  let ?s = "Cardinality (DomainNum publicData)"
  let ?C = "Constraints spr" and ?A = "Assertions spr"
  let ?m = "?s - (length ?C + length ?A)"
  have 1: "copyWires ?C 0 solution (replicate ?s 0, replicate ?s 0, replicate ?s 0) =
             Inr (wiresOf wireL solution ?C @ replicate (?s - length ?C) 0,
                  wiresOf wireR solution ?C @ replicate (?s - length ?C) 0,
                  wiresOf wireO solution ?C @ replicate (?s - length ?C) 0)"
    using fit by (subst copyWires_rows [OF ids(1)]) simp_all
  have 2: "copyWires ?A (length ?C) solution
             (wiresOf wireL solution ?C @ replicate (?s - length ?C) 0,
              wiresOf wireR solution ?C @ replicate (?s - length ?C) 0,
              wiresOf wireO solution ?C @ replicate (?s - length ?C) 0) =
             Inr (wiresOf wireL solution (?C @ ?A) @ replicate ?m 0,
                  wiresOf wireR solution (?C @ ?A) @ replicate ?m 0,
                  wiresOf wireO solution (?C @ ?A) @ replicate ?m 0)"
    using fit by (subst copyWires_rows [OF ids(2)]) (simp_all add: wiresOf_def)
  have 3: "padWires ?m (length ?C + length ?A) solution
             (wiresOf wireL solution (?C @ ?A) @ replicate ?m 0,
              wiresOf wireR solution (?C @ ?A) @ replicate ?m 0,
              wiresOf wireO solution (?C @ ?A) @ replicate ?m 0) =
             Inr (wiresOf wireL solution (?C @ ?A) @ replicate ?m (solution ! 0),
                  wiresOf wireR solution (?C @ ?A) @ replicate ?m (solution ! 0),
                  wiresOf wireO solution (?C @ ?A) @ replicate ?m (solution ! 0))"
    using fit by (subst padWires_rows [OF sol]) (simp_all add: wiresOf_def)
  show ?thesis
    by (simp add: ComputeLRO_def Let_def 1 2 3)
qed

lemma padded_rows:
  assumes "length cs + length as \<le> s"
  shows "length (wiresOf w solution (cs @ as) @ replicate (s - (length cs + length as)) d) = s"
    and "\<forall>i<length cs.
           (wiresOf w solution (cs @ as) @ replicate (s - (length cs + length as)) d) ! i =
           solution ! VariableID (w (cs ! i))"
    and "\<forall>i<length as.
           (wiresOf w solution (cs @ as) @ replicate (s - (length cs + length as)) d) !
             (length cs + i) = solution ! VariableID (w (as ! i))"
    and "\<forall>i. length cs + length as \<le> i \<and> i < s \<longrightarrow>
           (wiresOf w solution (cs @ as) @ replicate (s - (length cs + length as)) d) ! i = d"
  using assms by (auto simp: wiresOf_def nth_append)

text \<open>
  C7.  When every variable id of the circuit is an index of the solution, the solution
  has its slot 0, and the constraints and assertions fit in the domain, \<open>ComputeLRO\<close>
  returns three sequences of the domain's cardinality: row \<open>i\<close> below the number of
  constraints holds the solution at the L, R, O variable ids of constraint \<open>i\<close>; the
  rows after them hold, in order, the solution at the variable ids of the assertions;
  every row left holds \<open>solution ! 0\<close> in all three sequences.
\<close>

theorem ComputeLRO_rows:
  assumes "idsInRange solution (Constraints spr)" and "idsInRange solution (Assertions spr)"
    and "solution \<noteq> []"
    and "length (Constraints spr) + length (Assertions spr) \<le>
           Cardinality (DomainNum publicData)"
  shows "\<exists>l r o'. ComputeLRO spr publicData solution = Inr (l, r, o') \<and>
           length l = Cardinality (DomainNum publicData) \<and>
           length r = Cardinality (DomainNum publicData) \<and>
           length o' = Cardinality (DomainNum publicData) \<and>
           (\<forall>i<length (Constraints spr).
              l ! i = solution ! VariableID (wireL (Constraints spr ! i)) \<and>
              r ! i = solution ! VariableID (wireR (Constraints spr ! i)) \<and>
              o' ! i = solution ! VariableID (wireO (Constraints spr ! i))) \<and>
           (\<forall>i<length (Assertions spr).
              l ! (length (Constraints spr) + i) =
                solution ! VariableID (wireL (Assertions spr ! i)) \<and>
              r ! (length (Constraints spr) + i) =
                solution ! VariableID (wireR (Assertions spr ! i)) \<and>
              o' ! (length (Constraints spr) + i) =
                solution ! VariableID (wireO (Assertions spr ! i))) \<and>
           (\<forall>i. length (Constraints spr) + length (Assertions spr) \<le> i \<and>
                i < Cardinality (DomainNum publicData) \<longrightarrow>
              l ! i = solution ! 0 \<and> r ! i = solution ! 0 \<and> o' ! i = solution ! 0)"
  unfolding ComputeLRO_closed_form [OF assms]
  using padded_rows [OF assms(4), of wireL solution "solution ! 0"]
    padded_rows [OF assms(4), of wireR solution "solution ! 0"]
    padded_rows [OF assms(4), of wireO solution "solution ! 0"]
  by (intro exI conjI) (rule refl | blast)+

theorem ComputeLRO_rows_witness:
  "idsInRange [0, 3, 4, 12] (Constraints circuit4) \<and>
   idsInRange [0, 3, 4, 12] (Assertions circuit4) \<and>
   [0, 3, 4, 12] \<noteq> ([] :: fr list) \<and>
   length (Constraints circuit4) + length (Assertions circuit4) \<le> Cardinality (DomainNum public4) \<and>
   (\<exists>l r o'. ComputeLRO circuit4 public4 [0, 3, 4, 12] = Inr (l, r, o') \<and>
      length l = 4 \<and> length r = 4 \<and> length o' = 4 \<and>
      l ! 0 = 3 \<and> r ! 0 = 4 \<and> o' ! 0 = 12 \<and>
      l ! 1 = 12 \<and> r ! 1 = 0 \<and> o' ! 1 = 0 \<and>
      l ! 2 = 0 \<and> r ! 2 = 0 \<and> o' ! 2 = 0 \<and>
      l ! 3 = 0 \<and> r ! 3 = 0 \<and> o' ! 3 = 0)"
proof -
  let ?sol = "[0, 3, 4, 12] :: fr list"
  have h1: "idsInRange ?sol (Constraints circuit4)"
    and h2: "idsInRange ?sol (Assertions circuit4)"
    and h3: "?sol \<noteq> []"
    and h4: "length (Constraints circuit4) + length (Assertions circuit4) \<le>
               Cardinality (DomainNum public4)"
    by (simp_all add: idsInRange_def circuit4_def public4_def)
  from ComputeLRO_rows [OF h1 h2 h3 h4] obtain l r o' where
    res: "ComputeLRO circuit4 public4 ?sol = Inr (l, r, o')"
    and len: "length l = 4" "length r = 4" "length o' = 4"
    and c: "\<forall>i<length (Constraints circuit4).
              l ! i = ?sol ! VariableID (wireL (Constraints circuit4 ! i)) \<and>
              r ! i = ?sol ! VariableID (wireR (Constraints circuit4 ! i)) \<and>
              o' ! i = ?sol ! VariableID (wireO (Constraints circuit4 ! i))"
    and a: "\<forall>i<length (Assertions circuit4).
              l ! (length (Constraints circuit4) + i) =
                ?sol ! VariableID (wireL (Assertions circuit4 ! i)) \<and>
              r ! (length (Constraints circuit4) + i) =
                ?sol ! VariableID (wireR (Assertions circuit4 ! i)) \<and>
              o' ! (length (Constraints circuit4) + i) =
                ?sol ! VariableID (wireO (Assertions circuit4 ! i))"
    and p: "\<forall>i. length (Constraints circuit4) + length (Assertions circuit4) \<le> i \<and>
                i < Cardinality (DomainNum public4) \<longrightarrow>
              l ! i = ?sol ! 0 \<and> r ! i = ?sol ! 0 \<and> o' ! i = ?sol ! 0"
    by (auto simp: public4_def)
  from c [rule_format, of 0] have c0: "l ! 0 = 3" "r ! 0 = 4" "o' ! 0 = 12"
    by (simp_all add: circuit4_def)
  from a [rule_format, of 0] have a0: "l ! 1 = 12" "r ! 1 = 0" "o' ! 1 = 0"
    by (simp_all add: circuit4_def)
  from p [rule_format, of 2] have p2: "l ! 2 = 0" "r ! 2 = 0" "o' ! 2 = 0"
    by (simp_all add: circuit4_def public4_def)
  from p [rule_format, of 3] have p3: "l ! 3 = 0" "r ! 3 = 0" "o' ! 3 = 0"
    by (simp_all add: circuit4_def public4_def)
  show ?thesis
    using h1 h2 h3 h4 res len c0 a0 p2 p3 by blast
qed

subsection \<open>evalIDCosets and evalConstraintOrdering\<close>

lemma quad_div0 [simp]: "4 * i div 4 = (i::nat)"
  by simp

lemma evalIDCosets_fill_loop:
  assumes "length id0 = 4 * c" and "0 < c" and "\<forall>m<4. id0 ! m = 1"
  shows "\<exists>id1. for_loop (c - 1) 1 (evalIDCosets_fill gen) id0 = Inr id1 \<and>
           length id1 = 4 * c \<and> (\<forall>m<4 * c. id1 ! m = gen ^ (m div 4))"
proof -
  let ?I = "\<lambda>i id1. length id1 = 4 * c \<and> (\<forall>m<4 * i. id1 ! m = gen ^ (m div 4))"
  have "\<exists>id1. for_loop (c - 1) 1 (evalIDCosets_fill gen) id0 = Inr id1 \<and> ?I (1 + (c - 1)) id1"
  proof (rule for_loop_rule [where I = ?I])
    show "?I 1 id0" using assms by simp
  next
    fix i s
    assume i: "1 \<le> i" "i < 1 + (c - 1)" and inv: "?I i s"
    let ?s' = "s[4 * i := gen ^ i, 4 * i + 1 := gen ^ i, 4 * i + 2 := gen ^ i, 4 * i + 3 := gen ^ i]"
    from i inv have len: "4 * i + 3 < length s" by simp
    from i have "4 * (i - 1) < 4 * i" by simp
    with inv have "s ! (4 * (i - 1)) = gen ^ (4 * (i - 1) div 4)" by blast
    then have prev: "s ! (4 * (i - Suc 0)) * gen = gen ^ i"
      using i by (simp add: power_eq_if)
    have step: "evalIDCosets_fill gen i s = Inr ?s'"
      using len by (simp add: evalIDCosets_fill_def Let_def prev)
    have "?I (Suc i) ?s'"
    proof (intro conjI allI impI)
      show "length ?s' = 4 * c" using inv by simp
    next
      fix m assume m: "m < 4 * Suc i"
      show "?s' ! m = gen ^ (m div 4)"
      proof (cases "m < 4 * i")
        case True
        then show ?thesis using inv by simp
      next
        case False
        from quad_cases [OF m False] len show ?thesis
          by (elim disjE) simp_all
      qed
    qed
    with step show "\<exists>s'. evalIDCosets_fill gen i s = Inr s' \<and> ?I (Suc i) s'"
      by blast
  qed
  then show ?thesis using assms by simp
qed

lemma evalIDCosets_shift_loop:
  assumes "length id1 = 4 * c" and "length uid0 = 4 * c" and "length uuid0 = 4 * c"
    and "\<forall>m<4 * c. id1 ! m = gen ^ (m div 4)"
  shows "\<exists>id2 uid uuid.
           for_loop c 0 (evalIDCosets_shift c (u0, u1, u2, u3) shifter) (id1, uid0, uuid0) =
             Inr (id2, uid, uuid) \<and>
           length id2 = 4 * c \<and> length uid = 4 * c \<and> length uuid = 4 * c \<and>
           (\<forall>m<4 * c. id2 ! m = gen ^ (m div 4) * [u0, u1, u2, u3] ! (m mod 4) \<and>
                       uid ! m = id2 ! m * fst shifter)"
proof -
  let ?I = "\<lambda>i (s :: fr list \<times> fr list \<times> fr list). case s of (id2, uid, uuid) \<Rightarrow>
           length id2 = 4 * c \<and> length uid = 4 * c \<and> length uuid = 4 * c \<and>
           (\<forall>m<4 * i. id2 ! m = gen ^ (m div 4) * [u0, u1, u2, u3] ! (m mod 4) \<and>
                       uid ! m = id2 ! m * fst shifter) \<and>
           (\<forall>m\<ge>4 * i. id2 ! m = id1 ! m)"
  have "\<exists>s'. for_loop c 0 (evalIDCosets_shift c (u0, u1, u2, u3) shifter) (id1, uid0, uuid0) =
             Inr s' \<and> ?I (0 + c) s'"
  proof (rule for_loop_rule [where I = ?I])
    show "?I 0 (id1, uid0, uuid0)" using assms by simp
  next
    fix i s
    assume i: "0 \<le> i" "i < 0 + c" and inv: "?I i s"
    obtain id2 uid uuid where s: "s = (id2, uid, uuid)"
      by (cases s) auto
    from inv s have len: "length id2 = 4 * c" "length uid = 4 * c" "length uuid = 4 * c"
      and lo: "\<forall>m<4 * i. id2 ! m = gen ^ (m div 4) * [u0, u1, u2, u3] ! (m mod 4) \<and>
                       uid ! m = id2 ! m * fst shifter"
      and hi: "\<forall>m\<ge>4 * i. id2 ! m = id1 ! m"
      by simp_all
    from i len have in_range: "4 * i + 3 < length id2" "4 * i + 3 < length uid" by simp_all
    have cur: "id2 ! (4 * i) = gen ^ i" "id2 ! Suc (4 * i) = gen ^ i"
      "id2 ! Suc (Suc (4 * i)) = gen ^ i" "id2 ! (4 * i + 3) = gen ^ i"
      using hi assms(4) i by simp_all
    let ?id = "id2[4 * i := gen ^ i * u0, 4 * i + 1 := gen ^ i * u1,
                   4 * i + 2 := gen ^ i * u2, 4 * i + 3 := gen ^ i * u3]"
    let ?uid = "uid[4 * i := gen ^ i * u0 * fst shifter, 4 * i + 1 := gen ^ i * u1 * fst shifter,
                    4 * i + 2 := gen ^ i * u2 * fst shifter, 4 * i + 3 := gen ^ i * u3 * fst shifter]"
    obtain uuid' where step: "evalIDCosets_shift c (u0, u1, u2, u3) shifter i s = Inr (?id, ?uid, uuid')"
      and len': "length uuid' = length uuid"
      using in_range by (simp add: evalIDCosets_shift_def Let_def s cur)
    have "?I (Suc i) (?id, ?uid, uuid')"
    proof -
      have "\<forall>m<4 * Suc i. ?id ! m = gen ^ (m div 4) * [u0, u1, u2, u3] ! (m mod 4) \<and>
                       ?uid ! m = ?id ! m * fst shifter"
      proof (intro allI impI)
        fix m assume m: "m < 4 * Suc i"
        show "?id ! m = gen ^ (m div 4) * [u0, u1, u2, u3] ! (m mod 4) \<and>
                       ?uid ! m = ?id ! m * fst shifter"
        proof (cases "m < 4 * i")
          case True
          then show ?thesis using lo by simp
        next
          case False
          from quad_cases [OF m False] in_range show ?thesis
            by (elim disjE) simp_all
        qed
      qed
      moreover have "\<forall>m\<ge>4 * Suc i. ?id ! m = id1 ! m"
        using hi by simp
      ultimately show ?thesis
        using len len' by simp
    qed
    with step show "\<exists>s'. evalIDCosets_shift c (u0, u1, u2, u3) shifter i s = Inr s' \<and> ?I (Suc i) s'"
      by blast
  qed
  then show ?thesis by auto
qed

lemma odd_powers:
  assumes "j < 4"
  shows "[w, w * Square w, w * Square w * Square w, w * Square w * Square w * Square w] ! j =
           w ^ (2 * j + 1)"
proof -
  from assms consider "j = 0" | "j = 1" | "j = 2" | "j = 3" by linarith
  then show ?thesis
    by cases (simp_all add: Square_def power_numeral_reduce mult.assoc)
qed

lemma evalIDCosets_values:
  assumes "0 < Cardinality (DomainNum publicData)"
  shows "\<exists>id' uid uuid. evalIDCosets publicData = Inr (id', uid, uuid) \<and>
           length id' = 4 * Cardinality (DomainNum publicData) \<and>
           length uid = 4 * Cardinality (DomainNum publicData) \<and>
           length uuid = 4 * Cardinality (DomainNum publicData) \<and>
           (\<forall>m<4 * Cardinality (DomainNum publicData).
              id' ! m = Generator (DomainNum publicData) ^ (m div 4) *
                        FinerGenerator (DomainNum publicData) ^ (2 * (m mod 4) + 1) \<and>
              uid ! m = id' ! m * fst (Shifter publicData))"
proof -
  let ?c = "Cardinality (DomainNum publicData)"
  let ?gen = "Generator (DomainNum publicData)"
  let ?w = "FinerGenerator (DomainNum publicData)"
  let ?id0 = "(replicate (4 * ?c) (0::fr))[0 := 1, 1 := 1, 2 := 1, 3 := 1]"
  have ones: "\<forall>m<4. ?id0 ! m = 1"
  proof (intro allI impI)
    fix m :: nat assume "m < 4"
    then consider "m = 0" | "m = 1" | "m = 2" | "m = 3" by linarith
    then show "?id0 ! m = 1" using assms by cases simp_all
  qed
  from evalIDCosets_fill_loop [of ?id0 ?c ?gen] assms ones
  obtain id1 where fill: "for_loop (?c - 1) 1 (evalIDCosets_fill ?gen) ?id0 = Inr id1"
    and id1: "length id1 = 4 * ?c" "\<forall>m<4 * ?c. id1 ! m = ?gen ^ (m div 4)"
    by auto
  from evalIDCosets_shift_loop [OF id1(1) _ _ id1(2), of "replicate (4 * ?c) 0" "replicate (4 * ?c) 0"
      ?w "?w * Square ?w" "?w * Square ?w * Square ?w" "?w * Square ?w * Square ?w * Square ?w"
      "Shifter publicData"]
  obtain id2 uid uuid where
    shift: "for_loop ?c 0 (evalIDCosets_shift ?c (?w, ?w * Square ?w, ?w * Square ?w * Square ?w,
              ?w * Square ?w * Square ?w * Square ?w) (Shifter publicData))
              (id1, replicate (4 * ?c) 0, replicate (4 * ?c) 0) = Inr (id2, uid, uuid)"
    and len: "length id2 = 4 * ?c" "length uid = 4 * ?c" "length uuid = 4 * ?c"
    and vals: "\<forall>m<4 * ?c. id2 ! m = ?gen ^ (m div 4) *
                 [?w, ?w * Square ?w, ?w * Square ?w * Square ?w,
                  ?w * Square ?w * Square ?w * Square ?w] ! (m mod 4) \<and>
               uid ! m = id2 ! m * fst (Shifter publicData)"
    by auto
  have "evalIDCosets publicData = Inr (id2, uid, uuid)"
    using assms fill shift by (simp add: evalIDCosets_def Let_def)
  moreover have "\<forall>m<4 * ?c. id2 ! m = ?gen ^ (m div 4) * ?w ^ (2 * (m mod 4) + 1) \<and>
              uid ! m = id2 ! m * fst (Shifter publicData)"
    using vals by (simp add: odd_powers)
  ultimately show ?thesis
    using len by blast
qed


lemma evalConstraintOrdering_loop:
  assumes "n \<le> length evalL" "n \<le> length evalR" "n \<le> length evalO" "length res0 = n"
  shows "\<exists>res. for_loop n 0
            (evalConstraintOrdering_step evalZ evalZu evalS1 evalS2 evalS3 evalID evaluID evaluuID
               evalL evalR evalO) res0 = Inr res \<and>
          length res = n \<and>
          (\<forall>i<n. res ! i =
             (evalL ! i + evalS1 ! i + gamma) * (evalR ! i + evalS2 ! i + gamma) *
               (evalO ! i + evalS3 ! i + gamma) * evalL ! i * evalZu ! i -
             (evalL ! i + evalID ! i + gamma) * (evalR ! i + evaluID ! i + gamma) *
               (evalO ! i + evaluuID ! i + gamma) * evalL ! i * evalZ ! i)"
proof -
  let ?G = "\<lambda>i. (evalL ! i + evalS1 ! i + gamma) * (evalR ! i + evalS2 ! i + gamma) *
               (evalO ! i + evalS3 ! i + gamma) * evalL ! i * evalZu ! i -
             (evalL ! i + evalID ! i + gamma) * (evalR ! i + evaluID ! i + gamma) *
               (evalO ! i + evaluuID ! i + gamma) * evalL ! i * evalZ ! i"
  let ?I = "\<lambda>i res. length res = n \<and> (\<forall>k<i. res ! k = ?G k)"
  have "\<exists>res. for_loop n 0
            (evalConstraintOrdering_step evalZ evalZu evalS1 evalS2 evalS3 evalID evaluID evaluuID
               evalL evalR evalO) res0 = Inr res \<and> ?I (0 + n) res"
  proof (rule for_loop_rule [where I = ?I])
    show "?I 0 res0" using assms by simp
  next
    fix i s
    assume i: "0 \<le> i" "i < 0 + n" and inv: "?I i s"
    have step: "evalConstraintOrdering_step evalZ evalZu evalS1 evalS2 evalS3 evalID evaluID
                  evaluuID evalL evalR evalO i s = Inr (s[i := ?G i])"
      using i assms by (simp add: evalConstraintOrdering_step_def Let_def)
    have "?I (Suc i) (s[i := ?G i])"
    proof (intro conjI allI impI)
      show "length (s[i := ?G i]) = n" using inv by simp
    next
      fix k assume "k < Suc i"
      then consider "k < i" | "k = i" by linarith
      then show "s[i := ?G i] ! k = ?G k"
        using inv i by cases simp_all
    qed
    with step show "\<exists>s'. evalConstraintOrdering_step evalZ evalZu evalS1 evalS2 evalS3 evalID
                  evaluID evaluuID evalL evalR evalO i s = Inr s' \<and> ?I (Suc i) s'"
      by blast
  qed
  then show ?thesis by simp
qed

text \<open>
  C4, as the code has it.  On a domain of cardinality at least 1, with at least
  \<open>4 * Cardinality\<close> entries in \<open>evalL\<close>, \<open>evalR\<close>, \<open>evalO\<close>, entry \<open>i\<close> of the result of
  \<open>evalConstraintOrdering\<close> is
  \<open>Zu\<^sub>i * (l\<^sub>i + s1\<^sub>i + \<gamma>) * (r\<^sub>i + s2\<^sub>i + \<gamma>) * (o\<^sub>i + s3\<^sub>i + \<gamma>) * l\<^sub>i\<close> minus
  \<open>Z\<^sub>i * (l\<^sub>i + id\<^sub>i + \<gamma>) * (r\<^sub>i + uid\<^sub>i + \<gamma>) * (o\<^sub>i + uuid\<^sub>i + \<gamma>) * l\<^sub>i\<close>: the shifted
  accumulator multiplies the factors of the permutation polynomials and the accumulator
  itself those of the identity.  \<open>Z\<close>, \<open>Zu\<close>, \<open>s1\<close>, \<open>s2\<close>, \<open>s3\<close> are what
  \<open>evaluateCosets\<close> writes for \<open>z\<close>, \<open>zu\<close>, \<open>CS1\<close>, \<open>CS2\<close>, \<open>CS3\<close>; \<open>id\<close>, \<open>uid\<close>, \<open>uuid\<close> are
  the three sequences of \<open>evalIDCosets\<close>, where entry \<open>4 * k + j\<close> of \<open>id\<close> is
  \<open>Generator ^ k * FinerGenerator ^ (2 * j + 1)\<close> and \<open>uid\<close> is \<open>id\<close> times \<open>Shifter[0]\<close>.
\<close>

theorem evalConstraintOrdering_pointwise:
  assumes "0 < Cardinality (DomainNum publicData)"
    and "4 * Cardinality (DomainNum publicData) \<le> length evalL"
    and "4 * Cardinality (DomainNum publicData) \<le> length evalR"
    and "4 * Cardinality (DomainNum publicData) \<le> length evalO"
  shows "\<exists>res id' uid uuid.
           evalConstraintOrdering publicData z zu evalL evalR evalO = Inr res \<and>
           evalIDCosets publicData = Inr (id', uid, uuid) \<and>
           length res = 4 * Cardinality (DomainNum publicData) \<and>
           (\<forall>i<4 * Cardinality (DomainNum publicData).
              res ! i =
                (evalL ! i + coset_evals (CS1 publicData) (DomainNum publicData) ! i + gamma) *
                (evalR ! i + coset_evals (CS2 publicData) (DomainNum publicData) ! i + gamma) *
                (evalO ! i + coset_evals (CS3 publicData) (DomainNum publicData) ! i + gamma) *
                evalL ! i * coset_evals zu (DomainNum publicData) ! i -
                (evalL ! i + id' ! i + gamma) * (evalR ! i + uid ! i + gamma) *
                (evalO ! i + uuid ! i + gamma) *
                evalL ! i * coset_evals z (DomainNum publicData) ! i \<and>
              id' ! i = Generator (DomainNum publicData) ^ (i div 4) *
                        FinerGenerator (DomainNum publicData) ^ (2 * (i mod 4) + 1) \<and>
              uid ! i = id' ! i * fst (Shifter publicData))"
proof -
  let ?d = "DomainNum publicData"
  let ?n4 = "4 * Cardinality ?d"
  from evalIDCosets_values [OF assms(1)] obtain id' uid uuid where
    ids: "evalIDCosets publicData = Inr (id', uid, uuid)"
    and vals: "\<forall>m<?n4. id' ! m = Generator ?d ^ (m div 4) * FinerGenerator ?d ^ (2 * (m mod 4) + 1) \<and>
                 uid ! m = id' ! m * fst (Shifter publicData)"
    by blast
  from evalConstraintOrdering_loop [OF assms(2-4), of "replicate ?n4 0"
      "coset_evals z ?d" "coset_evals zu ?d" "coset_evals (CS1 publicData) ?d"
      "coset_evals (CS2 publicData) ?d" "coset_evals (CS3 publicData) ?d" id' uid uuid]
  obtain res where
    loop: "for_loop ?n4 0
            (evalConstraintOrdering_step (coset_evals z ?d) (coset_evals zu ?d)
               (coset_evals (CS1 publicData) ?d) (coset_evals (CS2 publicData) ?d)
               (coset_evals (CS3 publicData) ?d) id' uid uuid evalL evalR evalO)
            (replicate ?n4 0) = Inr res"
    and len: "length res = ?n4"
    and pt: "\<forall>i<?n4. res ! i =
                (evalL ! i + coset_evals (CS1 publicData) ?d ! i + gamma) *
                (evalR ! i + coset_evals (CS2 publicData) ?d ! i + gamma) *
                (evalO ! i + coset_evals (CS3 publicData) ?d ! i + gamma) *
                evalL ! i * coset_evals zu ?d ! i -
                (evalL ! i + id' ! i + gamma) * (evalR ! i + uid ! i + gamma) *
                (evalO ! i + uuid ! i + gamma) *
                evalL ! i * coset_evals z ?d ! i"
    by auto
  have "evalConstraintOrdering publicData z zu evalL evalR evalO = Inr res"
    by (simp add: evalConstraintOrdering_def Let_def evaluateCosets_fresh ids loop)
  with ids len pt vals show ?thesis by blast
qed

lemma for_loop_unroll:
  "0 < n \<Longrightarrow> for_loop n i body s = and_then (body i s) (for_loop (n - 1) (Suc i) body)"
  by (cases n) simp_all

lemma replicate_numeral: "replicate (numeral k) x = x # replicate (pred_numeral k) x"
  by (simp add: numeral_eq_Suc)

lemma list_update_numeral: "(x # xs)[numeral k := y] = x # xs[pred_numeral k := y]"
  by (simp add: numeral_eq_Suc)

lemmas unroll = for_loop_unroll replicate_numeral list_update_numeral

lemma evalIDCosets_public1:
  "evalIDCosets public1 =
     Inr ([omega8, omega8 ^ 3, omega8 ^ 5, omega8 ^ 7],
          [omega8 * 5, omega8 ^ 3 * 5, omega8 ^ 5 * 5, omega8 ^ 7 * 5],
          [omega8 * 25, omega8 ^ 3 * 25, omega8 ^ 5 * 25, omega8 ^ 7 * 25])"
  by (simp add: evalIDCosets_def public1_def Let_def unroll evalIDCosets_shift_def
      Square_def power_numeral_reduce mult.assoc)


lemma public1_fields [simp]:
  "DomainNum public1 = \<lparr>Cardinality = 1, Generator = 1, FinerGenerator = omega8\<rparr>"
  "DomainH public1 = \<lparr>Cardinality = 4, Generator = omega4, FinerGenerator = omega8\<rparr>"
  "Ql public1 = [0]" "Qr public1 = [0]" "Qm public1 = [1]" "Qo public1 = [- 1]" "Qk public1 = [0]"
  "LS1 public1 = [1]" "LS2 public1 = [5]" "LS3 public1 = [25]"
  "CS1 public1 = [1]" "CS2 public1 = [5]" "CS3 public1 = [25]"
  "Shifter public1 = (5, 25)" "CommitmentScheme public1 = toy_scheme"
  by (simp_all add: public1_def)

lemma cosetValues_constant:
  assumes "Cardinality domain = 1"
  shows "cosetValues [q] domain = [q, q, q, q]"
  using assms by (simp add: cosetValues_def copy_def Let_def upt_conv_Cons)

lemma evalConstraintOrdering_public1:
  "evalConstraintOrdering public1 [0] [1] [1, 1, 1, 1] [0, 0, 0, 0] [0, 0, 0, 0] =
     Inr [(2 + gamma) * (5 + gamma) * (25 + gamma), (2 + gamma) * (5 + gamma) * (25 + gamma),
          (2 + gamma) * (5 + gamma) * (25 + gamma), (2 + gamma) * (5 + gamma) * (25 + gamma)]"
  by (simp add: evalConstraintOrdering_def Let_def evaluateCosets_closed cosetValues_constant
      evalIDCosets_public1 unroll evalConstraintOrdering_step_def)

lemma claimed_ordering_value:
  "1 * ((1 + omega8 + gamma) * (0 + 5 * omega8 + gamma) * (0 + 5\<^sup>2 * omega8 + gamma) * 1) -
     0 * ((1 + 1 + gamma) * (0 + 5 + gamma) * (0 + 25 + gamma) * 1) =
   fr_of 5259633910676767296730407050735563097704453617853537688716200402289497321545"
proof -
  have "1 * ((1 + omega8 + gamma) * (0 + 5 * omega8 + gamma) * (0 + 5\<^sup>2 * omega8 + gamma) * 1) -
     0 * ((1 + 1 + gamma) * (0 + 5 + gamma) * (0 + 25 + gamma) * 1) =
     fr_of (42609015158754431761695549133074641343765458290642877646749339187308199411665283267132292118926713253611805200596209372406448628242979650367100915030401987 * fr_modulus +
       5259633910676767296730407050735563097704453617853537688716200402289497321545)"
    by (simp add: gamma_def omega8_def fr_arith fr_modulus_def)
  then show ?thesis
    by (simp only: fr_of_reduce)
qed

text \<open>
  C4, as claimed, fails on the domain of cardinality 1 for \<open>Z = 0\<close>, \<open>Zu = 1\<close>, \<open>l = 1\<close>,
  \<open>r = o = 0\<close>: the result is \<open>Zu\<close> times the factors of \<open>s1 = 1\<close>, \<open>s2 = 5\<close>, \<open>s3 = 25\<close>,
  not \<open>Zu\<close> times the factors of \<open>id = omega8\<close>.
\<close>

theorem evalConstraintOrdering_counterexample:
  "evalConstraintOrdering public1 [0] [1] [1, 1, 1, 1] [0, 0, 0, 0] [0, 0, 0, 0] =
     Inr [(2 + gamma) * (5 + gamma) * (25 + gamma), (2 + gamma) * (5 + gamma) * (25 + gamma),
          (2 + gamma) * (5 + gamma) * (25 + gamma), (2 + gamma) * (5 + gamma) * (25 + gamma)] \<and>
   (2 + gamma) * (5 + gamma) * (25 + gamma) \<noteq>
     1 * ((1 + omega8 + gamma) * (0 + 5 * omega8 + gamma) * (0 + 5\<^sup>2 * omega8 + gamma) * 1) -
     0 * ((1 + 1 + gamma) * (0 + 5 + gamma) * (0 + 25 + gamma) * 1)"
proof
  show "evalConstraintOrdering public1 [0] [1] [1, 1, 1, 1] [0, 0, 0, 0] [0, 0, 0, 0] =
     Inr [(2 + gamma) * (5 + gamma) * (25 + gamma), (2 + gamma) * (5 + gamma) * (25 + gamma),
          (2 + gamma) * (5 + gamma) * (25 + gamma), (2 + gamma) * (5 + gamma) * (25 + gamma)]"
    by (rule evalConstraintOrdering_public1)
  show "(2 + gamma) * (5 + gamma) * (25 + gamma) \<noteq>
     1 * ((1 + omega8 + gamma) * (0 + 5 * omega8 + gamma) * (0 + 5\<^sup>2 * omega8 + gamma) * 1) -
     0 * ((1 + 1 + gamma) * (0 + 5 + gamma) * (0 + 25 + gamma) * 1)"
proof -
    have "(2 + gamma) * (5 + gamma) * (25 + gamma) = fr_of 567306541128246646675849196868"
      by (simp add: gamma_def fr_arith)
    then show ?thesis
      unfolding claimed_ordering_value by (simp add: fr_of_inject fr_modulus_def)
  qed
qed

theorem evalConstraintOrdering_pointwise_witness:
  "0 < Cardinality (DomainNum public1) \<and>
   4 * Cardinality (DomainNum public1) \<le> length [1, 1, 1, 1 :: fr] \<and>
   4 * Cardinality (DomainNum public1) \<le> length [0, 0, 0, 0 :: fr] \<and>
   4 * Cardinality (DomainNum public1) \<le> length [0, 0, 0, 0 :: fr] \<and>
   (\<exists>res id' uid uuid.
      evalConstraintOrdering public1 [0] [1] [1, 1, 1, 1] [0, 0, 0, 0] [0, 0, 0, 0] = Inr res \<and>
      evalIDCosets public1 = Inr (id', uid, uuid) \<and>
      length res = 4 \<and>
      res ! 0 = (2 + gamma) * (5 + gamma) * (25 + gamma) \<and>
      id' ! 0 = omega8 \<and> uid ! 0 = omega8 * 5 \<and>
      id' ! 3 = omega8 ^ 7 \<and> uid ! 3 = omega8 ^ 7 * 5)"
proof -
  have h: "0 < Cardinality (DomainNum public1)"
    "4 * Cardinality (DomainNum public1) \<le> length [1, 1, 1, 1 :: fr]"
    "4 * Cardinality (DomainNum public1) \<le> length [0, 0, 0, 0 :: fr]"
    "4 * Cardinality (DomainNum public1) \<le> length [0, 0, 0, 0 :: fr]"
    by simp_all
  from evalConstraintOrdering_pointwise [OF h, of "[0]" "[1]"]
  obtain res id' uid uuid where
    res: "evalConstraintOrdering public1 [0] [1] [1, 1, 1, 1] [0, 0, 0, 0] [0, 0, 0, 0] = Inr res"
    and ids: "evalIDCosets public1 = Inr (id', uid, uuid)"
    and len: "length res = 4 * Cardinality (DomainNum public1)"
    and pt: "\<forall>i<4 * Cardinality (DomainNum public1).
              res ! i =
                ([1, 1, 1, 1] ! i + coset_evals (CS1 public1) (DomainNum public1) ! i + gamma) *
                ([0, 0, 0, 0] ! i + coset_evals (CS2 public1) (DomainNum public1) ! i + gamma) *
                ([0, 0, 0, 0] ! i + coset_evals (CS3 public1) (DomainNum public1) ! i + gamma) *
                [1, 1, 1, 1] ! i * coset_evals [1] (DomainNum public1) ! i -
                ([1, 1, 1, 1] ! i + id' ! i + gamma) * ([0, 0, 0, 0] ! i + uid ! i + gamma) *
                ([0, 0, 0, 0] ! i + uuid ! i + gamma) *
                [1, 1, 1, 1] ! i * coset_evals [0] (DomainNum public1) ! i \<and>
              id' ! i = Generator (DomainNum public1) ^ (i div 4) *
                        FinerGenerator (DomainNum public1) ^ (2 * (i mod 4) + 1) \<and>
              uid ! i = id' ! i * fst (Shifter public1)"
    by blast
  from pt [rule_format, of 0] have "res ! 0 = (2 + gamma) * (5 + gamma) * (25 + gamma)"
    "id' ! 0 = omega8" "uid ! 0 = omega8 * 5"
    by (simp_all add: coset_evals_constant)
  moreover from pt [rule_format, of 3] have "id' ! 3 = omega8 ^ 7" "uid ! 3 = omega8 ^ 7 * 5"
    by (simp_all add: coset_evals_constant)
  ultimately show ?thesis
    using h res ids len by auto
qed

subsection \<open>Roots of unity\<close>

lemma omega8_square: "omega8 ^ 2 = omega4"
proof -
  have "omega8 ^ 2 = fr_of (17444452995066617625487937660570427516240463878249347913698484080455254673866 * fr_modulus + 21888242871839275217838484774961031246007050428528088939761107053157389710902)"
    by (simp add: omega8_def fr_arith fr_modulus_def)
  then show ?thesis
    by (simp only: fr_of_reduce omega4_def fr_of_numeral)
qed

lemma omega4_square: "omega4 ^ 2 = - 1"
proof -
  have "omega4 ^ 2 = fr_of (21888242871839275213430563804664787404353416997930879449828600104561791390565 * fr_modulus + (- 1))"
    by (simp add: omega4_def fr_arith fr_modulus_def)
  then show ?thesis
    by (simp only: fr_of_reduce fr_of_1 fr_of_minus)
qed

lemma omega16_square: "omega16 ^ 2 = omega8"
proof -
  have "omega16 ^ 2 = fr_of (10198466577303779716174263455274497776553713679034007698197024499811553945081 * fr_modulus + 19540430494807482326159819597004422086093766032135589407132600596362845576832)"
    by (simp add: omega16_def fr_arith fr_modulus_def)
  then show ?thesis
    by (simp only: fr_of_reduce omega8_def fr_of_numeral)
qed

lemma omega8_power_8: "omega8 ^ 8 = 1"
proof -
  have "omega8 ^ 8 = ((omega8 ^ 2) ^ 2) ^ 2"
    by (simp only: power_mult [symmetric]) simp
  then show ?thesis
    by (simp add: omega8_square omega4_square)
qed

lemma omega16_power_16: "omega16 ^ 16 = 1"
proof -
  have "omega16 ^ 16 = (omega16 ^ 2) ^ 8"
    by (simp only: power_mult [symmetric]) simp
  then show ?thesis
    by (simp add: omega16_square omega8_power_8)
qed

lemma omega4_not_1: "omega4 \<noteq> 1"
  by (simp add: omega4_def fr_arith fr_of_inject fr_modulus_def)

lemma Inverse_omega8: "Inverse omega8 = omega8 ^ 7"
proof -
  have "nat (fr_modulus - 2) = 8 * 2736030358979909402780800718157159386068545550052004292962275523321976061951 + 7"
    by (simp add: fr_modulus_def)
  then have "Inverse omega8 = (omega8 ^ 8) ^ 2736030358979909402780800718157159386068545550052004292962275523321976061951 * omega8 ^ 7"
    by (simp only: Inverse_def power_add power_mult)
  then show ?thesis
    by (simp add: omega8_power_8)
qed


subsection \<open>The code at concrete inputs\<close>

lemma domain2_fields [simp]:
  "Cardinality domain2 = 2" "Generator domain2 = - 1" "FinerGenerator domain2 = omega16"
  by (simp_all add: domain2_def)

lemma public2_fields [simp]:
  "DomainNum public2 = domain2"
  "LS1 public2 = [1, - 1]" "LS2 public2 = [5, - 5]" "LS3 public2 = [25, - 25]"
  "Shifter public2 = (5, 25)"
  by (simp_all add: public2_def)

lemma cosetValues_linear:
  assumes "Cardinality domain = 2"
  shows "cosetValues [a0, a1] domain =
     (let g = Generator domain; w = FinerGenerator domain;
          b0 = a0 + w * a1; b1 = a0 + g * w * a1;
          c0 = a0 + w ^ 3 * a1; c1 = a0 + g * w ^ 3 * a1
      in [b0 + w ^ 5 * b1, c0 + w ^ 7 * c1, a0, a0,
          b0 + g * w ^ 5 * b1, c0 + g * w ^ 7 * c1, a1, a1])"
  using assms by (simp add: cosetValues_def copy_def Let_def FFT_2 upt_conv_Cons)


lemma circuit1_fields [simp]:
  "Constraints circuit1 = [\<lparr>wireL = Term 1, wireR = Term 2, wireO = Term 3\<rparr>]"
  "Assertions circuit1 = []"
  by (simp_all add: circuit1_def)

lemma ComputeLRO_circuit1:
  "ComputeLRO circuit1 public1 [d, a, b, c] = Inr ([a], [b], [c])"
  by (simp add: ComputeLRO_def Let_def)

lemma evalConstraints_public1:
  "evalConstraints public1 0 (Suc 0) 2
     ((\<lambda>_. [])(0 := [0, 0, 0, 0], Suc 0 := [0, 0, 0, 0], 2 := [1, 1, 1, 1])) =
   Inr (0, (\<lambda>_. [])(Suc 0 := [0, 0, 0, 0], 2 := [1, 1, 1, 1], 0 := [- 1, - 1, - 1, - 1]))"
  by (simp add: evalConstraints_def Let_def evaluateCosets_closed cosetValues_constant unroll
      evalConstraints_step_def)

lemma computeH_evals_returns:
  assumes "4 * Cardinality (DomainNum publicData) \<le> length constraintsInd"
    and "4 * Cardinality (DomainNum publicData) \<le> length constraintOrdering"
  shows "\<exists>h. computeH_evals publicData constraintsInd constraintOrdering = Inr h"
proof -
  let ?n = "Cardinality (DomainNum publicData)"
  let ?body1 = "\<lambda>i h. if i < length constraintOrdering \<and> i < length constraintsInd
                      then let buf = alpha * constraintOrdering ! i
                           in Inr (h[i := constraintsInd ! i + buf])
                      else Inl IndexOutOfRange"
  have "\<exists>h. for_loop (4 * ?n) 0 ?body1 (replicate (4 * ?n) 0) = Inr h \<and> True"
  proof (rule for_loop_rule [where I = "\<lambda>_ _. True"])
    fix i and s :: "fr list"
    assume "0 \<le> i" "i < 0 + 4 * ?n"
    with assms show "\<exists>s'. ?body1 i s = Inr s' \<and> True"
      by (simp add: Let_def)
  qed simp
  then obtain h1 where h1: "for_loop (4 * ?n) 0 ?body1 (replicate (4 * ?n) 0) = Inr h1"
    by blast
  have 2: "\<exists>h. for_loop ?n 0
             (\<lambda>i h. Inr (h[4 * i := h ! (4 * i) * u0, 4 * i + 1 := h ! (4 * i + 1) * u1,
                            4 * i + 2 := h ! (4 * i + 2) * u2,
                            4 * i + 3 := h ! (4 * i + 3) * u3])) h1 = Inr h \<and> True"
    for u0 u1 u2 u3 :: fr
    by (rule for_loop_rule [where I = "\<lambda>_ _. True"]) simp_all
  show ?thesis
    using 2 by (simp add: computeH_evals_def Let_def h1)
qed

lemma computeH_returns:
  assumes "4 * Cardinality (DomainNum publicData) \<le> length constraintsInd"
    and "4 * Cardinality (DomainNum publicData) \<le> length constraintOrdering"
  shows "\<exists>h. computeH publicData constraintsInd constraintOrdering = Inr h"
  using computeH_evals_returns [OF assms] by (auto simp: computeH_def Let_def)

lemma FFTInverse_1 [simp]: "FFTInverse domain [x] 0 = [x]"
  by (simp add: FFTInverse_def Inverse_1)

lemma ComputeZ_public1: "ComputeZ [a] [b] [c] public1 = Inr [1]"
  by (simp add: ComputeZ_def Let_def)

lemma shiftZ_1: "shiftZ [x] = Inr [x]"
  by (simp add: shiftZ_def Let_def copy_def)

lemma Prove_body_public1:
  "\<exists>st. Prove_body (\<lambda>spr witness. ([d, a, b, c], e)) circuit1 public1 w = Inr st \<and>
        handed_to_computeH st = [- 1, - 1, - 1, - 1] \<and>
        wire_evaluations st = [a, b, c]"
proof -
  let ?evalL = "[- 1, - 1, - 1, - 1] :: fr list"
  let ?evalR = "[0, 0, 0, 0] :: fr list"
  let ?evalO = "[1, 1, 1, 1] :: fr list"
  have "\<exists>res id' uid uuid.
          evalConstraintOrdering public1 [1] [1] ?evalL ?evalR ?evalO = Inr res \<and>
          evalIDCosets public1 = Inr (id', uid, uuid) \<and>
          length res = 4 * Cardinality (DomainNum public1) \<and>
          (\<forall>i<4 * Cardinality (DomainNum public1).
              res ! i =
                (?evalL ! i + coset_evals (CS1 public1) (DomainNum public1) ! i + gamma) *
                (?evalR ! i + coset_evals (CS2 public1) (DomainNum public1) ! i + gamma) *
                (?evalO ! i + coset_evals (CS3 public1) (DomainNum public1) ! i + gamma) *
                ?evalL ! i * coset_evals [1] (DomainNum public1) ! i -
                (?evalL ! i + id' ! i + gamma) * (?evalR ! i + uid ! i + gamma) *
                (?evalO ! i + uuid ! i + gamma) *
                ?evalL ! i * coset_evals [1] (DomainNum public1) ! i \<and>
              id' ! i = Generator (DomainNum public1) ^ (i div 4) *
                        FinerGenerator (DomainNum public1) ^ (2 * (i mod 4) + 1) \<and>
              uid ! i = id' ! i * fst (Shifter public1))"
    by (rule evalConstraintOrdering_pointwise) simp_all
  then obtain ordering where
    ordering: "evalConstraintOrdering public1 [1] [1] ?evalL ?evalR ?evalO = Inr ordering"
    and len: "length ordering = 4"
    by auto
  from computeH_returns [of public1 ?evalL ordering] len
  obtain h where h: "computeH public1 ?evalL ordering = Inr h"
    by auto
  show ?thesis
    by (simp add: Prove_body_def Let_def ComputeLRO_circuit1 evaluateCosets_closed
        cosetValues_constant evalConstraints_public1 ComputeZ_public1 shiftZ_1 ordering h
        wire_evaluations_def)
qed

lemma omega8_9: "omega8 ^ 7 * Square omega8 = omega8"
proof -
  have "omega8 ^ 7 * Square omega8 = omega8 ^ 8 * omega8"
    by (simp add: Square_def power_numeral_reduce mult.assoc)
  then show ?thesis by (simp add: omega8_power_8)
qed

lemma omega16_power_5_nonzero: "omega16 ^ 5 \<noteq> 0"
proof
  assume "omega16 ^ 5 = 0"
  then have "omega16 ^ 5 * omega16 ^ 11 = 0" by simp
  then have "omega16 ^ 16 = 0" by (simp only: power_add [symmetric]) simp
  then show False by (simp add: omega16_power_16)
qed

text \<open>
  C2, at the polynomial \<open>X\<close> on the domain of cardinality 2.  The claim asks for the
  values \<open>\<plusminus> omega16 ^ (2 * j + 1)\<close>; \<open>evaluateCosets\<close> writes the list below: the entries
  of cosets 0 and 1 have been transformed twice, and those of cosets 2 and 3 are the
  coefficients of the polynomial.  Entry 2 is 0, and the value of \<open>X\<close> at the point of
  index \<open>4 * 0 + 2\<close> is not.
\<close>

theorem evaluateCosets_of_X:
  "evaluateCosets [0, 1] (replicate 8 0) domain2 =
     Inr [omega16 - omega16 ^ 6, omega16 ^ 3 - omega16 ^ 10, 0, 0,
          omega16 + omega16 ^ 6, omega16 ^ 3 + omega16 ^ 10, 1, 1] \<and>
   (0 :: fr) \<noteq> Eval [0, 1] (Generator domain2 ^ 0 * FinerGenerator domain2 ^ (2 * 2 + 1))"
proof
  have "omega16 ^ 5 * omega16 = omega16 ^ 6"
    by (simp add: power_numeral_reduce mult.assoc)
  then show "evaluateCosets [0, 1] (replicate 8 0) domain2 =
     Inr [omega16 - omega16 ^ 6, omega16 ^ 3 - omega16 ^ 10, 0, 0,
          omega16 + omega16 ^ 6, omega16 ^ 3 + omega16 ^ 10, 1, 1]"
    by (simp add: evaluateCosets_closed cosetValues_linear Let_def)
  show "(0 :: fr) \<noteq> Eval [0, 1] (Generator domain2 ^ 0 * FinerGenerator domain2 ^ (2 * 2 + 1))"
    using omega16_power_5_nonzero by simp
qed

text \<open>
  C6, on the domain of cardinality 2 with the shifters 5 and 25.  \<open>Z[0]\<close> is 1, and
  \<open>Z[1]\<close> is 601: the factor of the \<open>o\<close> wire has been taken with the square of
  \<^verbatim>\<open>Shifter[1]\<close>, 625.  With the square of \<^verbatim>\<open>Shifter[0]\<close> the recurrence of the claim at
  \<open>i = 0\<close> would need \<open>Z[1] * 1 = Z[0] * 1\<close>.
\<close>

theorem ComputeZ_example:
  "ComputeZ [- gamma, 0] [- gamma - 4, 0] [- gamma - 24, 0] public2 = Inr [1, 601] \<and>
   601 * ((- gamma + 1 + gamma) * (- gamma - 4 + 5 + gamma) * (- gamma - 24 + 25 + gamma)) \<noteq>
   1 * ((- gamma + (- 1) ^ 0 + gamma) * (- gamma - 4 + 5 * (- 1) ^ 0 + gamma) *
        (- gamma - 24 + 5\<^sup>2 * (- 1) ^ 0 + gamma))"
proof
  show "ComputeZ [- gamma, 0] [- gamma - 4, 0] [- gamma - 24, 0] public2 = Inr [1, 601]"
    by (simp add: ComputeZ_def Let_def unroll ComputeZ_step_def Square_def Div_def Inverse_1)
  have "(601 :: fr) \<noteq> 1"
    by (simp add: fr_arith fr_of_inject fr_modulus_def)
  then show "601 * ((- gamma + 1 + gamma) * (- gamma - 4 + 5 + gamma) * (- gamma - 24 + 25 + gamma)) \<noteq>
   1 * ((- gamma + (- 1) ^ 0 + gamma) * (- gamma - 4 + 5 * (- 1) ^ 0 + gamma) *
        (- gamma - 24 + 5\<^sup>2 * (- 1) ^ 0 + gamma))"
    by simp
qed

lemma omega8_power_7_nonzero: "omega8 ^ 7 \<noteq> 0"
proof
  assume "omega8 ^ 7 = 0"
  then have "omega8 ^ 7 * omega8 ^ 1 = 0" by simp
  then have "omega8 ^ 8 = 0" by (simp only: power_add [symmetric]) simp
  then show False by (simp add: omega8_power_8)
qed

text \<open>
  C5, on the domain of cardinality 1, for \<open>constraintsInd\<close> constantly 1 and
  \<open>constraintOrdering\<close> constantly 0.  The four evaluations are multiplied by
  \<open>omega8 ^ 7\<close>, the inverse of \<open>omega8\<close>, on every coset: this is not the inverse of
  \<open>X ^ N - 1\<close> at the point of index 0, which is \<open>omega8\<close>, and it is not the inverse
  of the \<open>N\<close>-th power of the point of index 1, which is \<open>omega8 ^ 3\<close>.
\<close>

theorem computeH_evals_example:
  "computeH_evals public1 [1, 1, 1, 1] [0, 0, 0, 0] =
     Inr [omega8 ^ 7, omega8 ^ 7, omega8 ^ 7, omega8 ^ 7] \<and>
   omega8 ^ 7 * ((Generator (DomainNum public1) ^ 0 * omega8 ^ 1) ^ 1 - 1) \<noteq> 1 \<and>
   omega8 ^ 7 * (Generator (DomainNum public1) ^ 0 * omega8 ^ 3) ^ 1 \<noteq> 1"
proof (intro conjI)
  show "computeH_evals public1 [1, 1, 1, 1] [0, 0, 0, 0] =
     Inr [omega8 ^ 7, omega8 ^ 7, omega8 ^ 7, omega8 ^ 7]"
    by (simp add: computeH_evals_def Let_def unroll Inverse_omega8 omega8_9)
  have "omega8 ^ 7 * (omega8 - 1) = omega8 ^ 7 * omega8 ^ 1 - omega8 ^ 7"
    by (simp add: algebra_simps)
  also have "\<dots> = omega8 ^ 8 - omega8 ^ 7"
    by (simp only: power_add [symmetric]) simp
  finally have "omega8 ^ 7 * (omega8 - 1) = 1 - omega8 ^ 7"
    by (simp add: omega8_power_8)
  then show "omega8 ^ 7 * ((Generator (DomainNum public1) ^ 0 * omega8 ^ 1) ^ 1 - 1) \<noteq> 1"
    using omega8_power_7_nonzero by simp
  have "omega8 ^ 7 * omega8 ^ 3 = omega8 ^ 8 * omega8 ^ 2"
    by (simp only: power_add [symmetric]) simp
  then have "omega8 ^ 7 * omega8 ^ 3 = omega4"
    by (simp add: omega8_power_8 omega8_square)
  then show "omega8 ^ 7 * (Generator (DomainNum public1) ^ 0 * omega8 ^ 3) ^ 1 \<noteq> 1"
    using omega4_not_1 by simp
qed

lemma Prove_zero_or_panic:
  "Prove Solve spr publicData witness = Inl IndexOutOfRange \<or>
   Prove Solve spr publicData witness = Inr zero_Proof"
proof (cases "Prove_body Solve spr publicData witness")
  case (Inl e)
  then show ?thesis by (cases e) (simp add: Prove_def)
next
  case (Inr st)
  then show ?thesis by (simp add: Prove_def)
qed

text \<open>
  C1.  \<open>Prove\<close> returns the zero \<open>Proof\<close> whenever it returns.  For the gate \<open>3 * 4 = 12\<close>
  the variable \<^verbatim>\<open>proof\<close> holds the evaluations 3, 4, 12 of L, R, O at \<open>zeta\<close>, and the
  proof returned holds zeros.
\<close>

theorem Prove_returns_zero_Proof:
  "(Prove Solve spr publicData witness = Inl IndexOutOfRange \<or>
    Prove Solve spr publicData witness = Inr zero_Proof) \<and>
   Prove solve_ok circuit1 public1 [3, 4] = Inr zero_Proof \<and>
   map_sum id wire_evaluations (Prove_body solve_ok circuit1 public1 [3, 4]) = Inr [3, 4, 12]"
proof -
  from Prove_body_public1 [of 0 3 4 12 None "[3, 4]"] obtain st where
    "Prove_body solve_ok circuit1 public1 [3, 4] = Inr st" "wire_evaluations st = [3, 4, 12]"
    unfolding solve_ok_def by blast
  then show ?thesis
    using Prove_zero_or_panic [of Solve spr publicData witness] by (simp add: Prove_def)
qed

text \<open>
  C3, for the gate \<open>3 * 4 = 12\<close>.  \<open>ComputeLRO\<close> returns the wires 3, 4, 12, for which the
  gate identity \<open>Ql * L + Qr * R + Qm * L * R + Qo * O + Qk\<close> is 0 at every point; the
  evaluations handed to \<open>computeH\<close> are \<open>- 1\<close>: they are computed from the coset evaluations
  of \<open>Ql\<close>, \<open>Qr\<close>, \<open>Qm\<close> in the place of those of L, R, O.
\<close>

theorem Prove_gate_identity_example:
  "map_sum id handed_to_computeH (Prove_body solve_ok circuit1 public1 [3, 4]) =
     Inr [- 1, - 1, - 1, - 1] \<and>
   ComputeLRO circuit1 public1 (fst (solve_ok circuit1 [3, 4])) = Inr ([3], [4], [12]) \<and>
   Ql public1 ! 0 * 3 + Qr public1 ! 0 * 4 + Qm public1 ! 0 * 3 * 4 + Qo public1 ! 0 * 12 +
     Qk public1 ! 0 \<noteq> (- 1 :: fr)"
proof -
  from Prove_body_public1 [of 0 3 4 12 None "[3, 4]"] obtain st where
    "Prove_body solve_ok circuit1 public1 [3, 4] = Inr st"
    "handed_to_computeH st = [- 1, - 1, - 1, - 1]"
    unfolding solve_ok_def by blast
  moreover have "(0 :: fr) \<noteq> - 1"
    by simp
  ultimately show ?thesis
    by (simp add: ComputeLRO_circuit1 solve_ok_def)
qed

text \<open>
  C9, as claimed, fails: the solver reports an error, and \<open>Prove\<close> returns a proof all
  the same, after evaluating the wires 3, 4, 13 of the failed solution.
\<close>

theorem Prove_continues_after_failed_solve:
  "snd (solve_failed circuit1 [3, 4]) = Some ''constraint is not satisfied'' \<and>
   Prove solve_failed circuit1 public1 [3, 4] = Inr zero_Proof \<and>
   map_sum id wire_evaluations (Prove_body solve_failed circuit1 public1 [3, 4]) =
     Inr [3, 4, 13]"
proof -
  from Prove_body_public1 [of 0 3 4 13 "Some ''constraint is not satisfied''" "[3, 4]"]
  obtain st where
    "Prove_body solve_failed circuit1 public1 [3, 4] = Inr st" "wire_evaluations st = [3, 4, 13]"
    unfolding solve_failed_def by blast
  then show ?thesis
    by (simp add: Prove_def solve_failed_def)
qed

text \<open>
  C9, as the code has it.  \<open>Prove\<close> discards the error of the solver: it runs as it would
  had the solver returned the same solution and no error.
\<close>

theorem Prove_discards_solver_error:
  "Prove_body Solve spr publicData witness =
     Prove_body (\<lambda>spr witness. (fst (Solve spr witness), None)) spr publicData witness \<and>
   Prove Solve spr publicData witness =
     Prove (\<lambda>spr witness. (fst (Solve spr witness), None)) spr publicData witness"
  by (simp add: Prove_def Prove_body_def split: prod.splits)

end
